theory Spec2Isabelle
  imports Complex_Main "HOL-Library.Sublist"
begin

section \<open>TGLogging: the batching log handler of \<open>tglogging/tglogger.py\<close>\<close>

text \<open>
  A shallow embedding of \<open>TelegramLogHandler\<close>. Python's \<open>str\<close> is a \<open>string\<close>
  (lengths count characters), Python's unbounded \<open>int\<close> is \<open>int\<close>, and a reading of
  \<open>time.time()\<close> is a \<open>real\<close> handed in by the caller. The HTTP transport is an
  oracle from the request posted to the decoded JSON object it answers with; local
  \<open>print\<close> output is left out.
\<close>

subsection \<open>Strings\<close>

definition newline :: char where
  "newline = CHR 0x0A"

text \<open>\<open>x.rsplit("\n", 1)[0]\<close>: the text before the last newline of \<open>x\<close>, and \<open>x\<close>
  itself when it holds no newline.\<close>

definition rsplit_head :: "string \<Rightarrow> string" where
  "rsplit_head x =
     (if newline \<in> set x then rev (tl (dropWhile (\<lambda>c. c \<noteq> newline) (rev x))) else x)"

text \<open>The idiom used three times in \<open>handle_logs\<close>:
  \<open>msg = x.rsplit("\n", 1)[0]; if not msg: msg = x\<close>.\<close>

definition whole_lines :: "string \<Rightarrow> string" where
  "whole_lines x = (let msg = rsplit_head x in if msg = [] then x else msg)"

text \<open>Python's \<open>match in msg\<close> on strings: \<open>match\<close> occurs as a contiguous substring.\<close>

fun contains :: "string \<Rightarrow> string \<Rightarrow> bool" where
  "contains m [] = (m = [])"
| "contains m (c # cs) = (prefix m (c # cs) \<or> contains m cs)"

subsection \<open>Configuration and handler state\<close>

text \<open>The constructor arguments that the batching uses. \<open>ignore_match\<close> is the field
  after construction: \<open>None\<close> for an empty argument, otherwise the list of substrings.\<close>

record config =
  wait_time :: int
  minimum :: int
  pending :: int
  ignore_match :: "string list option"

datatype request =
    GetMe
  | SendInit
  | SendMessage string
  | EditMessage "int option" string
  | SendDocument string

text \<open>The mutable fields of the handler. \<open>http_session\<close> is modelled by the log of the
  requests posted through it, oldest first; \<open>SendMessage\<close>, \<open>EditMessage\<close> and
  \<open>SendDocument\<close> carry the log content handed to \<open>send_message\<close>, \<open>edit_message\<close>
  and \<open>send_as_file\<close> (the payload wraps it in the title and a code block).\<close>

record handler =
  messages :: string
  current_msg :: string
  floodwait :: int
  message_id :: "int option"
  lines :: int
  last_update :: real
  http_session :: "request list"

definition init_handler :: handler where
  "init_handler = \<lparr> messages = [], current_msg = [], floodwait = 0, message_id = Some 0,
     lines = 0, last_update = 0, http_session = [] \<rparr>"

subsection \<open>Responses of the remote endpoint\<close>

datatype result = Result (username: "string option") (new_message_id: "int option")

record response =
  ok :: bool
  result :: "result option"
  error_code :: "int option"
  description :: "string option"
  parameters :: "(string \<times> int) list option"

datatype exn = AttributeError | TypeError

type_synonym api = "request \<Rightarrow> response"

subsection \<open>\<open>emit\<close>\<close>

fun any_match :: "string list \<Rightarrow> string \<Rightarrow> bool" where
  "any_match [] msg = False"
| "any_match (m # ms) msg = (if contains m msg then True else any_match ms msg)"

definition ignored :: "config \<Rightarrow> string \<Rightarrow> bool" where
  "ignored cfg msg = (case ignore_match cfg of None \<Rightarrow> False | Some ms \<Rightarrow> any_match ms msg)"

text \<open>\<open>emit\<close> reads the clock twice: \<open>now\<close> for the gate and \<open>now'\<close> for the new
  \<open>last_update\<close>. The flag returned says whether \<open>loop.create_task(self.handle_logs())\<close>
  was called.\<close>

definition emit :: "config \<Rightarrow> real \<Rightarrow> real \<Rightarrow> string \<Rightarrow> handler \<Rightarrow> handler \<times> bool" where
  "emit cfg now now' msg s =
     (if ignored cfg msg then (s, False)
      else
        let s1 = s\<lparr>lines := lines s + 1\<rparr>;
            s2 = s1\<lparr>messages := messages s1 @ msg @ [newline]\<rparr>;
            diff = now - last_update s2
        in if diff \<ge> real_of_int (max (wait_time cfg) (floodwait s2)) \<and> lines s2 \<ge> minimum cfg
           then
             let s3 = (if floodwait s2 \<noteq> 0 then s2\<lparr>floodwait := 0\<rparr> else s2)
             in (s3\<lparr>lines := 0, last_update := now'\<rparr>, True)
           else (s2, False))"

subsection \<open>The remote operations\<close>

definition send_request :: "api \<Rightarrow> request \<Rightarrow> handler \<Rightarrow> response \<times> handler" where
  "send_request api req s = (api req, s\<lparr>http_session := http_session s @ [req]\<rparr>)"

definition handle_error :: "response \<Rightarrow> handler \<Rightarrow> handler" where
  "handle_error resp s =
     (case parameters resp of
        None \<Rightarrow> s
      | Some error \<Rightarrow>
          if error = [] then s
          else (case map_of error ''retry_after'' of
                  None \<Rightarrow> s
                | Some r \<Rightarrow> if r \<noteq> 0 then s\<lparr>floodwait := r\<rparr> else s))"

text \<open>\<open>verify_bot\<close> returns a pair, or \<open>None\<close> when it falls off its \<open>elif\<close>;
  \<open>res.get("result").get(...)\<close> raises when the response has no \<open>result\<close>.\<close>

definition verify_bot :: "api \<Rightarrow> handler \<Rightarrow> (exn + (string option \<times> bool) option) \<times> handler" where
  "verify_bot api s =
     (let (res, s1) = send_request api GetMe s
      in if error_code res = Some 401 \<and> description res = Some ''Unauthorized''
         then (Inr (Some (None, False)), s1)
         else (case result res of
                 None \<Rightarrow> (Inl AttributeError, s1)
               | Some r \<Rightarrow>
                   (case username r of
                      None \<Rightarrow> (Inr None, s1)
                    | Some u \<Rightarrow> if u \<noteq> [] then (Inr (Some (Some u, True)), s1)
                               else (Inr None, s1))))"

definition initialise :: "api \<Rightarrow> handler \<Rightarrow> exn option \<times> handler" where
  "initialise api s =
     (let (res, s1) = send_request api SendInit s
      in if ok res
         then (case result res of
                 None \<Rightarrow> (Some AttributeError, s1)
               | Some r \<Rightarrow> (None, s1\<lparr>message_id := new_message_id r\<rparr>))
         else (None, handle_error res s1))"

definition send_message :: "api \<Rightarrow> string \<Rightarrow> handler \<Rightarrow> exn option \<times> handler" where
  "send_message api message s =
     (let (res, s1) = send_request api (SendMessage message) s
      in if ok res
         then (case result res of
                 None \<Rightarrow> (Some AttributeError, s1)
               | Some r \<Rightarrow> (None, s1\<lparr>message_id := new_message_id r\<rparr>))
         else (None, handle_error res s1))"

definition edit_message :: "api \<Rightarrow> string \<Rightarrow> handler \<Rightarrow> handler" where
  "edit_message api message s =
     (let (res, s1) = send_request api (EditMessage (message_id s) message) s
      in if \<not> ok res then handle_error res s1 else s1)"

definition send_as_file :: "api \<Rightarrow> string \<Rightarrow> handler \<Rightarrow> handler" where
  "send_as_file api logs s =
     (let (res, s1) = send_request api (SendDocument logs) s
      in if ok res then s1 else handle_error res s1)"

subsection \<open>\<open>handle_logs\<close>\<close>

text \<open>\<open>not self.message_id\<close>: the identifier is \<open>0\<close> or \<open>None\<close>.\<close>

definition no_message_id :: "handler \<Rightarrow> bool" where
  "no_message_id s = (message_id s = None \<or> message_id s = Some 0)"

text \<open>Lines 104 to 108: the session bootstrap. Unpacking \<open>None\<close> into
  \<open>uname, is_alive\<close> raises \<open>TypeError\<close>.\<close>

definition bootstrap :: "api \<Rightarrow> handler \<Rightarrow> exn option \<times> handler" where
  "bootstrap api s =
     (if no_message_id s then
        (case verify_bot api s of
           (Inl e, s1) \<Rightarrow> (Some e, s1)
         | (Inr None, s1) \<Rightarrow> (Some TypeError, s1)
         | (Inr (Some (uname, is_alive)), s1) \<Rightarrow> initialise api s1)
      else (None, s))"

text \<open>Lines 109 to 122: compose the candidate and edit in place or roll over.\<close>

definition compose :: "api \<Rightarrow> string \<Rightarrow> handler \<Rightarrow> exn option \<times> handler" where
  "compose api msg s =
     (let computed_message = current_msg s @ msg
      in if length computed_message > 4050 then
           let to_edit = whole_lines (take 4050 computed_message);
               to_new = drop (length to_edit) computed_message;
               s1 = (if to_edit \<noteq> current_msg s then edit_message api to_edit s else s);
               s2 = s1\<lparr>current_msg := to_new\<rparr>
           in send_message api to_new s2
         else
           let s1 = edit_message api computed_message s
           in (None, s1\<lparr>current_msg := computed_message\<rparr>))"

text \<open>The whole flush. The result pairs the exception that ended the coroutine, if
  any, with the handler as the coroutine left it.\<close>

definition handle_logs :: "config \<Rightarrow> api \<Rightarrow> handler \<Rightarrow> exn option \<times> handler" where
  "handle_logs cfg api s =
     (if int (length (messages s)) > pending cfg then
        let msg = whole_lines (messages s);
            s1 = s\<lparr>current_msg := [], message_id := Some 0\<rparr>;
            s2 = s1\<lparr>messages := drop (length msg) (messages s1)\<rparr>
        in (None, send_as_file api msg s2)
      else
        let msg = whole_lines (take 4050 (messages s));
            letter_count = length msg;
            s1 = s\<lparr>messages := drop letter_count (messages s)\<rparr>
        in (case bootstrap api s1 of
              (Some e, s2) \<Rightarrow> (Some e, s2)
            | (None, s2) \<Rightarrow> compose api msg s2))"

subsection \<open>Observations used by the properties\<close>

text \<open>The value of \<open>resp["parameters"]["retry_after"]\<close>, when the response has it.\<close>

definition retry_after :: "response \<Rightarrow> int option" where
  "retry_after resp =
     (case parameters resp of None \<Rightarrow> None | Some error \<Rightarrow> map_of error ''retry_after'')"

text \<open>The characters that a step took off the front of the buffer: as many characters
  of the old buffer as the buffer became shorter.\<close>

definition removed_span :: "handler \<Rightarrow> handler \<Rightarrow> string" where
  "removed_span s s' = take (length (messages s) - length (messages s')) (messages s)"

text \<open>The requests a step posted: the new tail of the session log.\<close>

definition posted :: "handler \<Rightarrow> handler \<Rightarrow> request list" where
  "posted s s' = drop (length (http_session s)) (http_session s')"

text \<open>\<open>len(self.messages) > self.pending\<close>: the flush takes the file path.\<close>

definition file_path :: "config \<Rightarrow> handler \<Rightarrow> bool" where
  "file_path cfg s = (int (length (messages s)) > pending cfg)"

text \<open>The chunk that \<open>handle_logs\<close> carves off: \<open>msg\<close> of line 89 to 91 on the file
  path, \<open>msg\<close> of line 97 to 100 on the text path.\<close>

definition flush_chunk :: "config \<Rightarrow> handler \<Rightarrow> string" where
  "flush_chunk cfg s =
     (if file_path cfg s then whole_lines (messages s)
      else whole_lines (take 4050 (messages s)))"

text \<open>\<open>verify_bot\<close> returns its pair: the answer to \<open>getMe\<close> is the 401
  \<open>Unauthorized\<close> error, or it has a \<open>result\<close> with a non-empty \<open>username\<close>. On any
  other answer \<open>verify_bot\<close> raises, or returns \<open>None\<close> and the unpacking raises.\<close>

definition verify_returns :: "response \<Rightarrow> bool" where
  "verify_returns res =
     ((error_code res = Some 401 \<and> description res = Some ''Unauthorized'') \<or>
      (case result res of
         None \<Rightarrow> False
       | Some r \<Rightarrow> (case username r of None \<Rightarrow> False | Some u \<Rightarrow> u \<noteq> [])))"

subsection \<open>The handler on its event loop\<close>

text \<open>\<open>emit\<close> runs in the producer; each task created by \<open>loop.create_task\<close> runs
  \<open>handle_logs\<close> at some later point, with the endpoint answering as the oracle of that
  run says. The world is the handler with the number of tasks created and not yet run.\<close>

datatype event = Emit real real string | RunTask api

fun step :: "config \<Rightarrow> event \<Rightarrow> handler \<times> nat \<Rightarrow> handler \<times> nat" where
  "step cfg (Emit now now' msg) (s, n) =
     (case emit cfg now now' msg s of (s', scheduled) \<Rightarrow> (s', if scheduled then Suc n else n))"
| "step cfg (RunTask api) (s, 0) = (s, 0)"
| "step cfg (RunTask api) (s, Suc n) = (snd (handle_logs cfg api s), n)"

fun run :: "config \<Rightarrow> event list \<Rightarrow> handler \<times> nat \<Rightarrow> handler \<times> nat" where
  "run cfg [] w = w"
| "run cfg (e # es) w = run cfg es (step cfg e w)"

text \<open>The lines that \<open>emit\<close> accepted, each followed by a newline, in order.\<close>

fun accepted :: "config \<Rightarrow> event list \<Rightarrow> string" where
  "accepted cfg [] = []"
| "accepted cfg (Emit now now' msg # es) =
     (if ignored cfg msg then [] else msg @ [newline]) @ accepted cfg es"
| "accepted cfg (RunTask api # es) = accepted cfg es"

text \<open>The spans taken off the front of the buffer, one for each step, in order.\<close>

fun removed :: "config \<Rightarrow> event list \<Rightarrow> handler \<times> nat \<Rightarrow> string list" where
  "removed cfg [] w = []"
| "removed cfg (e # es) w =
     removed_span (fst w) (fst (step cfg e w)) # removed cfg es (step cfg e w)"

text \<open>A run of calls of \<open>emit\<close> only, each reading the clock before \<open>t\<close>.\<close>

fun emits_before :: "real \<Rightarrow> event list \<Rightarrow> bool" where
  "emits_before t [] = True"
| "emits_before t (Emit now now' msg # es) = (now < t \<and> emits_before t es)"
| "emits_before t (RunTask api # es) = False"

subsection \<open>Concrete configurations and endpoints\<close>

text \<open>The constructor's defaults.\<close>

definition default_config :: config where
  "default_config = \<lparr> wait_time = 5, minimum = 1, pending = 200000, ignore_match = None \<rparr>"

text \<open>An endpoint that accepts every request and names message 7.\<close>

definition ok_api :: api where
  "ok_api req = \<lparr> ok = True, result = Some (Result (Some ''logbot'') (Some 7)),
     error_code = None, description = None, parameters = None \<rparr>"

text \<open>A flood-control answer, and an endpoint that throttles every request.\<close>

definition flood_response :: "int \<Rightarrow> response" where
  "flood_response n = \<lparr> ok = False, result = None, error_code = Some 429,
     description = Some ''Too Many Requests'', parameters = Some [(''retry_after'', n)] \<rparr>"

definition flood_api :: api where
  "flood_api req = flood_response 30"

text \<open>A producer of long lines: the line \<open>a\<close>, a line of 4048 characters and a line
  of 4049 characters, 10 seconds apart, each flushed before the next arrives.\<close>

definition long_lines_run :: "event list" where
  "long_lines_run =
     [Emit 10 10 ''a'', RunTask ok_api,
      Emit 20 20 (replicate 4048 (CHR ''x'')), RunTask ok_api,
      Emit 30 30 (replicate 4049 (CHR ''z'')), RunTask ok_api]"

text \<open>A producer of one very long line: the line \<open>a\<close> and its flush, a line of 9000
  characters and its flush, then the line \<open>b\<close>, whose flush is still to run.\<close>

definition hard_cut_prefix :: "event list" where
  "hard_cut_prefix =
     [Emit 10 10 ''a'', RunTask ok_api,
      Emit 20 20 (replicate 9000 (CHR ''y'')), RunTask ok_api,
      Emit 30 30 ''b'']"

text \<open>Two handlers with a message in place whose committed text has 4050 characters:
  one committed the line \<open>a\<close> and a line of 4048 characters, and has the line \<open>b\<close>
  behind a newline in its buffer; the other committed 4050 characters of one line, and
  has the line \<open>b\<close> in its buffer.\<close>

definition full_message_handler :: handler where
  "full_message_handler =
     \<lparr> messages = newline # ''b'' @ [newline],
       current_msg = ''a'' @ newline # replicate 4048 (CHR ''x''),
       floodwait = 0, message_id = Some 7, lines = 0, last_update = 30, http_session = [] \<rparr>"

definition one_line_handler :: handler where
  "one_line_handler =
     \<lparr> messages = ''b'' @ [newline], current_msg = replicate 4050 (CHR ''x''),
       floodwait = 0, message_id = Some 7, lines = 0, last_update = 30, http_session = [] \<rparr>"

section \<open>Auxiliary facts\<close>

lemma rsplit_head_no_newline: "newline \<notin> set x \<Longrightarrow> rsplit_head x = x"
  by (simp add: rsplit_head_def)

lemma rsplit_head_split:
  assumes "newline \<notin> set post"
  shows "rsplit_head (pre @ newline # post) = pre"
proof -
  have "dropWhile (\<lambda>c. c \<noteq> newline) (rev post @ newline # rev pre) = newline # rev pre"
    using assms by (auto simp add: dropWhile_append)
  then show ?thesis by (simp add: rsplit_head_def)
qed

lemma last_newline_split:
  assumes "newline \<in> set x"
  shows "\<exists>pre post. x = pre @ newline # post \<and> newline \<notin> set post"
  using assms by (rule split_list_last)

lemma rsplit_head_prefix: "prefix (rsplit_head x) x"
proof (cases "newline \<in> set x")
  case True
  then obtain pre post where "x = pre @ newline # post" "newline \<notin> set post"
    using last_newline_split by blast
  then show ?thesis by (simp add: rsplit_head_split)
next
  case False
  then show ?thesis by (simp add: rsplit_head_no_newline)
qed

lemma whole_lines_prefix: "prefix (whole_lines x) x"
  by (simp add: whole_lines_def Let_def rsplit_head_prefix)

lemma whole_lines_length: "length (whole_lines x) \<le> length x"
  using whole_lines_prefix [of x] by (rule prefix_length_le)


lemma whole_lines_no_newline: "newline \<notin> set x \<Longrightarrow> whole_lines x = x"
  by (simp add: whole_lines_def rsplit_head_no_newline)

lemma whole_lines_split:
  "newline \<notin> set post \<Longrightarrow> whole_lines (pre @ newline # post) = (if pre = [] then newline # post else pre)"
  by (simp add: whole_lines_def rsplit_head_split)

lemma whole_lines_empty: "whole_lines x = [] \<longleftrightarrow> x = []"
  by (auto simp add: whole_lines_def Let_def rsplit_head_def)

lemma handle_error_frame:
  "messages (handle_error r s) = messages s" "current_msg (handle_error r s) = current_msg s"
  "message_id (handle_error r s) = message_id s" "lines (handle_error r s) = lines s"
  "last_update (handle_error r s) = last_update s" "http_session (handle_error r s) = http_session s"
  by (simp_all add: handle_error_def split: option.splits)

lemma edit_message_messages: "messages (edit_message api m s) = messages s"
  by (simp add: edit_message_def send_request_def handle_error_frame)

lemma send_message_messages: "messages (snd (send_message api m s)) = messages s"
  by (simp add: send_message_def send_request_def handle_error_frame split: option.splits)

lemma send_as_file_messages: "messages (send_as_file api m s) = messages s"
  by (simp add: send_as_file_def send_request_def handle_error_frame)

lemma initialise_messages: "messages (snd (initialise api s)) = messages s"
  by (simp add: initialise_def send_request_def handle_error_frame split: option.splits)

lemma verify_bot_messages: "messages (snd (verify_bot api s)) = messages s"
  by (simp add: verify_bot_def send_request_def split: option.splits)

lemma bootstrap_messages: "messages (snd (bootstrap api s)) = messages s"
  using verify_bot_messages [of api s] initialise_messages [of api "snd (verify_bot api s)"]
  by (auto simp add: bootstrap_def split: prod.splits sum.splits option.splits)

lemma compose_messages: "messages (snd (compose api m s)) = messages s"
  by (simp add: compose_def Let_def send_message_messages edit_message_messages)

lemma handle_logs_messages:
  "messages (snd (handle_logs cfg api s)) =
     (if int (length (messages s)) > pending cfg
      then drop (length (whole_lines (messages s))) (messages s)
      else drop (length (whole_lines (take 4050 (messages s)))) (messages s))"
proof (cases "int (length (messages s)) > pending cfg")
  case True
  then show ?thesis by (simp add: handle_logs_def Let_def send_as_file_messages)
next
  case False
  let ?s1 = "s\<lparr>messages := drop (length (whole_lines (take 4050 (messages s)))) (messages s)\<rparr>"
  have b: "messages (snd (bootstrap api ?s1)) = messages ?s1" by (rule bootstrap_messages)
  show ?thesis
  proof (cases "bootstrap api ?s1")
    case (Pair e s2)
    with b have m: "messages s2 = messages ?s1" by simp
    show ?thesis
    proof (cases e)
      case None
      with Pair False m show ?thesis
        by (simp add: handle_logs_def Let_def compose_messages)
    next
      case (Some x)
      with Pair False m show ?thesis
        by (simp add: handle_logs_def Let_def)
    qed
  qed
qed



lemma prefix_take_length: "prefix p x \<Longrightarrow> take (length p) x = p"
  by (auto simp add: prefix_def)

lemma prefix_append_drop: "prefix p x \<Longrightarrow> p @ drop (length p) x = x"
  by (auto simp add: prefix_def)

lemma flush_chunk_prefix: "prefix (flush_chunk cfg s) (messages s)"
proof (cases "file_path cfg s")
  case True
  then show ?thesis by (simp add: flush_chunk_def whole_lines_prefix)
next
  case False
  have "prefix (whole_lines (take 4050 (messages s))) (take 4050 (messages s))"
    by (rule whole_lines_prefix)
  moreover have "prefix (take 4050 (messages s)) (messages s)"
    by (rule take_is_prefix)
  ultimately have "prefix (whole_lines (take 4050 (messages s))) (messages s)"
    by (rule prefix_order.trans)
  with False show ?thesis by (simp add: flush_chunk_def)
qed

lemma handle_logs_buffer:
  "messages (snd (handle_logs cfg api s)) = drop (length (flush_chunk cfg s)) (messages s)"
  by (simp add: handle_logs_messages flush_chunk_def file_path_def)

lemma handle_logs_splits_buffer:
  "messages s = flush_chunk cfg s @ messages (snd (handle_logs cfg api s))"
  using flush_chunk_prefix [of cfg s] by (simp add: handle_logs_buffer prefix_append_drop)

lemma handle_logs_removed_span:
  "removed_span s (snd (handle_logs cfg api s)) = flush_chunk cfg s"
proof -
  have "length (flush_chunk cfg s) \<le> length (messages s)"
    using flush_chunk_prefix by (rule prefix_length_le)
  then have "removed_span s (snd (handle_logs cfg api s)) = take (length (flush_chunk cfg s)) (messages s)"
    by (simp add: removed_span_def handle_logs_buffer)
  then show ?thesis
    using flush_chunk_prefix [of cfg s] by (simp add: prefix_take_length)
qed


lemma whole_lines_leading_newline:
  "newline \<notin> set post \<Longrightarrow> whole_lines (newline # post) = newline # post"
  using whole_lines_split [of post "[]"] by simp

lemma contains_iff: "contains m x \<longleftrightarrow> (\<exists>p q. x = p @ m @ q)"
proof (induction x)
  case Nil
  then show ?case by simp
next
  case (Cons c cs)
  show ?case
  proof
    assume "contains m (c # cs)"
    then consider "prefix m (c # cs)" | "contains m cs" by auto
    then show "\<exists>p q. c # cs = p @ m @ q"
    proof cases
      case 1
      then obtain q where "c # cs = m @ q" by (auto simp add: prefix_def)
      then have "c # cs = [] @ m @ q" by simp
      then show ?thesis by blast
    next
      case 2
      with Cons.IH obtain p q where "cs = p @ m @ q" by blast
      then have "c # cs = (c # p) @ m @ q" by simp
      then show ?thesis by blast
    qed
  next
    assume "\<exists>p q. c # cs = p @ m @ q"
    then obtain p q where pq: "c # cs = p @ m @ q" by blast
    show "contains m (c # cs)"
    proof (cases p)
      case Nil
      with pq have "prefix m (c # cs)" by (simp add: prefix_def)
      then show ?thesis by simp
    next
      case (Cons a p')
      with pq have "cs = p' @ m @ q" by simp
      with Cons.IH have "contains m cs" by blast
      then show ?thesis by simp
    qed
  qed
qed

lemma any_match_iff: "any_match ms x \<longleftrightarrow> (\<exists>m \<in> set ms. contains m x)"
  by (induction ms) auto


lemma emit_scheduled_iff:
  "\<not> ignored cfg line \<Longrightarrow>
   snd (emit cfg now now' line s) \<longleftrightarrow>
     (now - last_update s \<ge> real_of_int (max (wait_time cfg) (floodwait s)) \<and>
      lines s + 1 \<ge> minimum cfg)"
  by (simp add: emit_def Let_def)

lemma emit_not_scheduled_state:
  "\<not> ignored cfg line \<Longrightarrow> \<not> snd (emit cfg now now' line s) \<Longrightarrow>
   fst (emit cfg now now' line s) = s\<lparr>lines := lines s + 1, messages := messages s @ line @ [newline]\<rparr>"
proof -
  assume n: "\<not> ignored cfg line" and g: "\<not> snd (emit cfg now now' line s)"
  from n g have "\<not> (now - last_update s \<ge> real_of_int (max (wait_time cfg) (floodwait s)) \<and>
      lines s + 1 \<ge> minimum cfg)"
    by (simp only: emit_scheduled_iff not_False_eq_True)
  with n show ?thesis
    by (auto simp add: emit_def Let_def)
qed

lemma handle_error_retry_after:
  "retry_after resp = Some r \<Longrightarrow> r \<noteq> 0 \<Longrightarrow> handle_error resp s = s\<lparr>floodwait := r\<rparr>"
  by (auto simp add: handle_error_def retry_after_def split: option.splits)


subsection \<open>What each remote operation posts and changes\<close>

lemma edit_message_effect:
  "http_session (edit_message api m s) = http_session s @ [EditMessage (message_id s) m]"
  "current_msg (edit_message api m s) = current_msg s"
  "message_id (edit_message api m s) = message_id s"
  by (simp_all add: edit_message_def send_request_def handle_error_frame)

lemma send_message_effect:
  "http_session (snd (send_message api m s)) = http_session s @ [SendMessage m]"
  "current_msg (snd (send_message api m s)) = current_msg s"
  by (simp_all add: send_message_def send_request_def handle_error_frame split: option.splits)

lemma send_as_file_effect:
  "http_session (send_as_file api m s) = http_session s @ [SendDocument m]"
  "current_msg (send_as_file api m s) = current_msg s"
  "message_id (send_as_file api m s) = message_id s"
  by (simp_all add: send_as_file_def send_request_def handle_error_frame)

lemma initialise_effect:
  "http_session (snd (initialise api s)) = http_session s @ [SendInit]"
  "current_msg (snd (initialise api s)) = current_msg s"
  by (simp_all add: initialise_def send_request_def handle_error_frame split: option.splits)

lemma verify_bot_effect:
  "http_session (snd (verify_bot api s)) = http_session s @ [GetMe]"
  "current_msg (snd (verify_bot api s)) = current_msg s"
  "message_id (snd (verify_bot api s)) = message_id s"
  by (simp_all add: verify_bot_def send_request_def split: option.splits)

lemma bootstrap_current_msg: "current_msg (snd (bootstrap api s)) = current_msg s"
  using verify_bot_effect(2) [of api s] initialise_effect(2) [of api "snd (verify_bot api s)"]
  by (auto simp add: bootstrap_def split: prod.splits sum.splits option.splits)

lemma bootstrap_posts:
  "\<exists>new. http_session (snd (bootstrap api s)) = http_session s @ new \<and>
     (no_message_id s \<longrightarrow> (\<exists>rest. new = GetMe # rest))"
  using verify_bot_effect(1) [of api s] initialise_effect(1) [of api "snd (verify_bot api s)"]
  by (auto simp add: bootstrap_def split: prod.splits sum.splits option.splits)

text \<open>The two branches of the composition, spelled out.\<close>

lemma compose_no_overflow:
  assumes "length (current_msg s @ msg) \<le> 4050"
  shows "fst (compose api msg s) = None"
    and "current_msg (snd (compose api msg s)) = current_msg s @ msg"
    and "http_session (snd (compose api msg s)) =
           http_session s @ [EditMessage (message_id s) (current_msg s @ msg)]"
    and "message_id (snd (compose api msg s)) = message_id s"
  using assms by (simp_all add: compose_def Let_def edit_message_effect)

lemma compose_overflow:
  assumes "length (current_msg s @ msg) > 4050"
  shows "current_msg (snd (compose api msg s)) =
           drop (length (whole_lines (take 4050 (current_msg s @ msg)))) (current_msg s @ msg)"
    and "http_session (snd (compose api msg s)) =
           http_session s @
           (if whole_lines (take 4050 (current_msg s @ msg)) \<noteq> current_msg s
            then [EditMessage (message_id s) (whole_lines (take 4050 (current_msg s @ msg)))]
            else []) @
           [SendMessage (drop (length (whole_lines (take 4050 (current_msg s @ msg))))
              (current_msg s @ msg))]"
  using assms by (simp_all add: compose_def Let_def send_message_effect edit_message_effect)

lemma compose_posts: "\<exists>new. http_session (snd (compose api msg s)) = http_session s @ new"
proof (cases "length (current_msg s @ msg) > 4050")
  case True
  then show ?thesis using compose_overflow(2) [of s msg api] by blast
next
  case False
  then have "length (current_msg s @ msg) \<le> 4050" by simp
  then show ?thesis using compose_no_overflow(3) [of s msg api] by blast
qed

text \<open>The file path of \<open>handle_logs\<close>, spelled out.\<close>

lemma handle_logs_file_path:
  assumes "file_path cfg s"
  shows "fst (handle_logs cfg api s) = None"
    and "http_session (snd (handle_logs cfg api s)) =
           http_session s @ [SendDocument (flush_chunk cfg s)]"
    and "current_msg (snd (handle_logs cfg api s)) = []"
    and "message_id (snd (handle_logs cfg api s)) = Some 0"
  using assms
  by (simp_all add: handle_logs_def file_path_def flush_chunk_def Let_def send_as_file_effect)

text \<open>The text path: the chunk leaves the buffer, then bootstrap, then composition.\<close>

lemma handle_logs_text_path:
  assumes "\<not> file_path cfg s"
  shows "handle_logs cfg api s =
     (case bootstrap api (s\<lparr>messages := drop (length (flush_chunk cfg s)) (messages s)\<rparr>) of
        (Some e, s2) \<Rightarrow> (Some e, s2)
      | (None, s2) \<Rightarrow> compose api (flush_chunk cfg s) s2)"
proof -
  have c: "flush_chunk cfg s = whole_lines (take 4050 (messages s))"
    using assms by (simp add: flush_chunk_def)
  show ?thesis
    unfolding c using assms by (simp add: handle_logs_def file_path_def Let_def)
qed

lemma handle_logs_text_first_request:
  assumes "\<not> file_path cfg s" and "no_message_id s"
  shows "\<exists>rest. posted s (snd (handle_logs cfg api s)) = GetMe # rest"
proof -
  let ?s1 = "s\<lparr>messages := drop (length (flush_chunk cfg s)) (messages s)\<rparr>"
  have n: "no_message_id ?s1" using assms(2) by (simp add: no_message_id_def)
  obtain new rest where b: "http_session (snd (bootstrap api ?s1)) = http_session ?s1 @ new"
    and r: "new = GetMe # rest"
    using bootstrap_posts [of api ?s1] n by blast
  obtain e s2 where p: "bootstrap api ?s1 = (e, s2)" by (cases "bootstrap api ?s1")
  show ?thesis
  proof (cases e)
    case None
    obtain more where "http_session (snd (compose api (flush_chunk cfg s) s2)) = http_session s2 @ more"
      using compose_posts by blast
    with None p b r assms(1) show ?thesis
      by (simp add: handle_logs_text_path posted_def)
  next
    case (Some x)
    with p b r assms(1) show ?thesis
      by (simp add: handle_logs_text_path posted_def)
  qed
qed

lemma flush_chunk_file_cases:
  assumes "file_path cfg s"
  shows "newline \<notin> set (messages s) \<longrightarrow> flush_chunk cfg s = messages s"
    and "\<forall>pre post. messages s = pre @ newline # post \<and> newline \<notin> set post \<longrightarrow>
           flush_chunk cfg s = (if pre = [] then messages s else pre)"
  using assms by (auto simp add: flush_chunk_def whole_lines_no_newline whole_lines_split)

lemma flush_chunk_text_cases:
  assumes "\<not> file_path cfg s"
  shows "newline \<notin> set (take 4050 (messages s)) \<longrightarrow> flush_chunk cfg s = take 4050 (messages s)"
    and "\<forall>pre post. take 4050 (messages s) = pre @ newline # post \<and> newline \<notin> set post \<longrightarrow>
           flush_chunk cfg s = (if pre = [] then take 4050 (messages s) else pre)"
  using assms by (auto simp add: flush_chunk_def whole_lines_no_newline whole_lines_split)


subsection \<open>Runs\<close>

lemma run_append: "run cfg (es @ es') w = run cfg es' (run cfg es w)"
  by (induction es arbitrary: w) simp_all

text \<open>A first line and its flush, under the default configuration and an endpoint
  that accepts everything: the line is committed, its newline stays in the buffer.\<close>

lemma first_line_flushed:
  "run default_config [Emit 10 10 ''a'', RunTask ok_api] (init_handler, 0) =
     (\<lparr> messages = [newline], current_msg = ''a'', floodwait = 0, message_id = Some 7,
        lines = 0, last_update = 10,
        http_session = [GetMe, SendInit, EditMessage (Some 7) ''a''] \<rparr>, 0)"
  by (simp add: emit_def ignored_def default_config_def init_handler_def Let_def
      handle_logs_def whole_lines_def rsplit_head_def newline_def bootstrap_def
      no_message_id_def verify_bot_def initialise_def send_request_def ok_api_def
      compose_def edit_message_def)

lemma emit_scheduled_state:
  "\<not> ignored cfg line \<Longrightarrow> snd (emit cfg now now' line s) \<Longrightarrow>
   fst (emit cfg now now' line s) =
     s\<lparr>messages := messages s @ line @ [newline], floodwait := 0, lines := 0, last_update := now'\<rparr>"
proof -
  assume n: "\<not> ignored cfg line" and g: "snd (emit cfg now now' line s)"
  from g have "now - last_update s \<ge> real_of_int (max (wait_time cfg) (floodwait s)) \<and>
      lines s + 1 \<ge> minimum cfg"
    using emit_scheduled_iff [OF n, of now now' s] by blast
  with n show ?thesis
    by (cases "floodwait s = 0") (simp_all add: emit_def Let_def)
qed


lemma step_emit_scheduled:
  assumes "\<not> ignored cfg line" and "snd (emit cfg now now' line s)"
  shows "step cfg (Emit now now' line) (s, n) =
     (s\<lparr>messages := messages s @ line @ [newline], floodwait := 0, lines := 0,
        last_update := now'\<rparr>, Suc n)"
proof -
  obtain s' b where e: "emit cfg now now' line s = (s', b)" by (cases "emit cfg now now' line s")
  with assms(2) have b: "b" by simp
  from e have "s' = fst (emit cfg now now' line s)" by simp
  with assms have "s' = s\<lparr>messages := messages s @ line @ [newline], floodwait := 0, lines := 0,
        last_update := now'\<rparr>"
    by (simp add: emit_scheduled_state)
  with e b show ?thesis by simp
qed

text \<open>A flush on the text path with a message identifier in place skips the bootstrap.\<close>

lemma handle_logs_established:
  assumes "\<not> file_path cfg s" and "\<not> no_message_id s"
  shows "handle_logs cfg api s =
     compose api (flush_chunk cfg s) (s\<lparr>messages := drop (length (flush_chunk cfg s)) (messages s)\<rparr>)"
proof -
  let ?s1 = "s\<lparr>messages := drop (length (flush_chunk cfg s)) (messages s)\<rparr>"
  have "bootstrap api ?s1 = (None, ?s1)"
    using assms(2) by (auto simp add: bootstrap_def no_message_id_def)
  with assms(1) show ?thesis by (simp add: handle_logs_text_path)
qed

text \<open>The same flush with every request accepted, as a state.\<close>

lemma flush_ok_no_overflow:
  assumes "\<not> file_path cfg s" and "\<not> no_message_id s"
    and "length (current_msg s @ flush_chunk cfg s) \<le> 4050"
  shows "snd (handle_logs cfg ok_api s) =
     s\<lparr>messages := drop (length (flush_chunk cfg s)) (messages s),
       http_session := http_session s @ [EditMessage (message_id s) (current_msg s @ flush_chunk cfg s)],
       current_msg := current_msg s @ flush_chunk cfg s\<rparr>"
  using assms(3)
  by (simp add: handle_logs_established [OF assms(1,2)] compose_def Let_def edit_message_def
      send_request_def ok_api_def)

lemma flush_ok_overflow:
  assumes "\<not> file_path cfg s" and "\<not> no_message_id s"
    and "length (current_msg s @ flush_chunk cfg s) > 4050"
    and "whole_lines (take 4050 (current_msg s @ flush_chunk cfg s)) = left"
    and "left \<noteq> current_msg s"
  shows "snd (handle_logs cfg ok_api s) =
     s\<lparr>messages := drop (length (flush_chunk cfg s)) (messages s),
       http_session := http_session s @
         [EditMessage (message_id s) left,
          SendMessage (drop (length left) (current_msg s @ flush_chunk cfg s))],
       current_msg := drop (length left) (current_msg s @ flush_chunk cfg s),
       message_id := Some 7\<rparr>"
  using assms(3,4,5)
  by (simp add: handle_logs_established [OF assms(1,2)] compose_def Let_def edit_message_def
      send_message_def send_request_def ok_api_def)


lemma flush_ok_overflow_no_edit:
  assumes "\<not> file_path cfg s" and "\<not> no_message_id s"
    and "length (current_msg s @ flush_chunk cfg s) > 4050"
    and "whole_lines (take 4050 (current_msg s @ flush_chunk cfg s)) = current_msg s"
  shows "snd (handle_logs cfg ok_api s) =
     s\<lparr>messages := drop (length (flush_chunk cfg s)) (messages s),
       http_session := http_session s @
         [SendMessage (drop (length (current_msg s)) (current_msg s @ flush_chunk cfg s))],
       current_msg := drop (length (current_msg s)) (current_msg s @ flush_chunk cfg s),
       message_id := Some 7\<rparr>"
  using assms(3,4)
  by (simp add: handle_logs_established [OF assms(1,2)] compose_def Let_def
      send_message_def send_request_def ok_api_def)

lemma send_message_ok:
  assumes "ok (api (SendMessage m))" and "result (api (SendMessage m)) = Some r"
  shows "send_message api m s =
     (None, s\<lparr>http_session := http_session s @ [SendMessage m], message_id := new_message_id r\<rparr>)"
  using assms by (simp add: send_message_def send_request_def)


subsection \<open>Conservation of the buffer\<close>

lemma emit_messages:
  "messages (fst (emit cfg now now' line s)) =
     messages s @ (if ignored cfg line then [] else line @ [newline])"
  by (simp add: emit_def Let_def)

lemma removed_span_grown: "messages s' = messages s @ tail \<Longrightarrow> removed_span s s' = []"
  by (simp add: removed_span_def)

text \<open>One step: what left the front of the buffer, followed by what is in the buffer
  now, is the old buffer followed by what the step accepted.\<close>

lemma step_conserves:
  "removed_span (fst w) (fst (step cfg e w)) @ messages (fst (step cfg e w)) =
     messages (fst w) @ accepted cfg [e]"
proof (cases w)
  case (Pair s n)
  show ?thesis
  proof (cases e)
    case (Emit now now' line)
    obtain s' b where em: "emit cfg now now' line s = (s', b)"
      by (cases "emit cfg now now' line s")
    then have "s' = fst (emit cfg now now' line s)" by simp
    then have m: "messages s' = messages s @ (if ignored cfg line then [] else line @ [newline])"
      by (simp only: emit_messages)
    then have "removed_span s s' = []" by (rule removed_span_grown)
    with m Pair Emit em show ?thesis by simp
  next
    case (RunTask api)
    show ?thesis
    proof (cases n)
      case 0
      with Pair RunTask show ?thesis by (simp add: removed_span_def)
    next
      case (Suc k)
      have "removed_span s (snd (handle_logs cfg api s)) @ messages (snd (handle_logs cfg api s)) =
          messages s"
        using handle_logs_splits_buffer [of s cfg api] by (simp add: handle_logs_removed_span)
      with Pair RunTask Suc show ?thesis by simp
    qed
  qed
qed

lemma accepted_Cons: "accepted cfg (e # es) = accepted cfg [e] @ accepted cfg es"
  by (cases e) simp_all

lemma run_conserves:
  "concat (removed cfg es w) @ messages (fst (run cfg es w)) = messages (fst w) @ accepted cfg es"
proof (induction es arbitrary: w)
  case Nil
  then show ?case by simp
next
  case (Cons e es)
  have "concat (removed cfg (e # es) w) @ messages (fst (run cfg (e # es) w)) =
      removed_span (fst w) (fst (step cfg e w)) @
      (concat (removed cfg es (step cfg e w)) @ messages (fst (run cfg es (step cfg e w))))"
    by simp
  also have "\<dots> = removed_span (fst w) (fst (step cfg e w)) @
      (messages (fst (step cfg e w)) @ accepted cfg es)"
    by (simp only: Cons.IH)
  also have "\<dots> = (messages (fst w) @ accepted cfg [e]) @ accepted cfg es"
    using step_conserves [of w cfg e] by simp
  finally show ?case
    using accepted_Cons [of cfg e es] by simp
qed

text \<open>What a flush on the text path hands to the endpoint, when it raises nothing.\<close>

lemma text_flush_hands_off:
  assumes "\<not> file_path cfg s" and "fst (handle_logs cfg api s) = None"
  shows "\<exists>left. current_msg s @ flush_chunk cfg s = left @ current_msg (snd (handle_logs cfg api s)) \<and>
    ((left = [] \<and>
      (\<exists>mid. last (http_session (snd (handle_logs cfg api s))) =
         EditMessage mid (current_msg (snd (handle_logs cfg api s))))) \<or>
     (last (http_session (snd (handle_logs cfg api s))) =
        SendMessage (current_msg (snd (handle_logs cfg api s))) \<and>
      (left = current_msg s \<or>
       (\<exists>mid. EditMessage mid left \<in> set (posted s (snd (handle_logs cfg api s)))))))"
proof -
  define s1 where "s1 = s\<lparr>messages := drop (length (flush_chunk cfg s)) (messages s)\<rparr>"
  define cand where "cand = current_msg s @ flush_chunk cfg s"
  define s' where "s' = snd (handle_logs cfg api s)"
  obtain e s2 where b: "bootstrap api s1 = (e, s2)" by (cases "bootstrap api s1")
  have e: "e = None"
  proof (cases e)
    case None
    then show ?thesis .
  next
    case (Some x)
    with b assms(1) have "handle_logs cfg api s = (Some x, s2)"
      by (simp add: handle_logs_text_path s1_def)
    with assms(2) show ?thesis by simp
  qed
  have hl: "handle_logs cfg api s = compose api (flush_chunk cfg s) s2"
    using assms(1) b e by (simp add: handle_logs_text_path s1_def)
  have cur2: "current_msg s2 = current_msg s"
    using bootstrap_current_msg [of api s1] unfolding b by (simp add: s1_def)
  obtain new where h2: "http_session s2 = http_session s @ new"
    using bootstrap_posts [of api s1] unfolding b by (auto simp add: s1_def)
  show ?thesis
  proof (cases "length (current_msg s2 @ flush_chunk cfg s) > 4050")
    case False
    then have le: "length (current_msg s2 @ flush_chunk cfg s) \<le> 4050" by simp
    have c: "current_msg s' = cand"
      using compose_no_overflow(2) [OF le, of api] by (simp add: s'_def hl cur2 cand_def)
    have "http_session s' = http_session s2 @ [EditMessage (message_id s2) cand]"
      using compose_no_overflow(3) [OF le, of api] by (simp add: s'_def hl cur2 cand_def)
    then have "last (http_session s') = EditMessage (message_id s2) (current_msg s')"
      by (simp add: c)
    with c have "cand = [] @ current_msg s' \<and>
        ([] = [] \<and> (\<exists>mid. last (http_session s') = EditMessage mid (current_msg s')))"
      by auto
    then show ?thesis unfolding cand_def s'_def by blast
  next
    case True
    define left where "left = whole_lines (take 4050 cand)"
    have c: "current_msg s' = drop (length left) cand"
      using compose_overflow(1) [OF True, of api] by (simp only: s'_def hl cur2 left_def cand_def)
    have "prefix left (take 4050 cand)"
      unfolding left_def by (rule whole_lines_prefix)
    then have "prefix left cand"
      using take_is_prefix [of 4050 cand] by (rule prefix_order.trans)
    then have a: "cand = left @ current_msg s'"
      by (simp add: c prefix_append_drop)
    have "http_session s' = http_session s2 @
        (if left \<noteq> current_msg s then [EditMessage (message_id s2) left] else []) @
        [SendMessage (drop (length left) cand)]"
      using compose_overflow(2) [OF True, of api]
      by (simp add: s'_def hl cur2 left_def cand_def)
    then have h': "http_session s' = http_session s @ new @
        (if left \<noteq> current_msg s then [EditMessage (message_id s2) left] else []) @
        [SendMessage (current_msg s')]"
      by (simp only: c h2 append_assoc)
    then have l: "last (http_session s') = SendMessage (current_msg s')"
      by simp
    have "left = current_msg s \<or> (\<exists>mid. EditMessage mid left \<in> set (posted s s'))"
    proof (cases "left = current_msg s")
      case True
      then show ?thesis by simp
    next
      case False
      with h' have "posted s s' = new @ [EditMessage (message_id s2) left] @
          [SendMessage (current_msg s')]"
        by (simp add: posted_def)
      then have "EditMessage (message_id s2) left \<in> set (posted s s')" by simp
      then show ?thesis by blast
    qed
    with a l show ?thesis unfolding cand_def s'_def by blast
  qed
qed


subsection \<open>The gate after a flood-control error\<close>

lemma emit_refused_under_floor:
  assumes "floodwait s = 30" and "wait_time cfg = 5" and "now - last_update s < 30"
  shows "\<not> snd (emit cfg now now' line s)"
    and "floodwait (fst (emit cfg now now' line s)) = 30"
    and "last_update (fst (emit cfg now now' line s)) = last_update s"
proof -
  show n: "\<not> snd (emit cfg now now' line s)"
  proof (cases "ignored cfg line")
    case True
    then show ?thesis by (simp add: emit_def)
  next
    case False
    with assms show ?thesis by (simp add: emit_scheduled_iff)
  qed
  show "floodwait (fst (emit cfg now now' line s)) = 30"
  proof (cases "ignored cfg line")
    case True
    with assms(1) show ?thesis by (simp add: emit_def)
  next
    case False
    with n assms(1) show ?thesis by (simp add: emit_not_scheduled_state)
  qed
  show "last_update (fst (emit cfg now now' line s)) = last_update s"
  proof (cases "ignored cfg line")
    case True
    then show ?thesis by (simp add: emit_def)
  next
    case False
    with n show ?thesis by (simp add: emit_not_scheduled_state)
  qed
qed

lemma emits_before_refused:
  assumes "wait_time cfg = 5"
  shows "floodwait s = 30 \<Longrightarrow> emits_before (last_update s + 30) es \<Longrightarrow>
    snd (run cfg es (s, n)) = n \<and>
    floodwait (fst (run cfg es (s, n))) = 30 \<and>
    last_update (fst (run cfg es (s, n))) = last_update s"
proof (induction es arbitrary: s)
  case Nil
  then show ?case by simp
next
  case (Cons e es)
  show ?case
  proof (cases e)
    case (Emit now now' line)
    with Cons.prems(2) have t: "now - last_update s < 30" and r: "emits_before (last_update s + 30) es"
      by simp_all
    define s' where "s' = fst (emit cfg now now' line s)"
    have n: "\<not> snd (emit cfg now now' line s)"
      and f: "floodwait s' = 30" and l: "last_update s' = last_update s"
      unfolding s'_def using Cons.prems(1) assms t by (rule emit_refused_under_floor)+
    obtain a b where ab: "emit cfg now now' line s = (a, b)"
      by (cases "emit cfg now now' line s")
    with n have "\<not> b" and "a = s'" by (simp_all add: s'_def)
    with ab have st: "step cfg e (s, n) = (s', n)"
      by (simp add: Emit)
    from r have "emits_before (last_update s' + 30) es" by (simp only: l)
    with f have "snd (run cfg es (s', n)) = n \<and>
        floodwait (fst (run cfg es (s', n))) = 30 \<and>
        last_update (fst (run cfg es (s', n))) = last_update s'"
      by (rule Cons.IH)
    then show ?thesis by (simp add: st l)
  next
    case (RunTask api)
    with Cons.prems(2) show ?thesis by simp
  qed
qed


subsection \<open>The first text flush of a session\<close>

lemma bootstrap_fresh_raises:
  assumes "no_message_id s" and "\<not> verify_returns (api GetMe)"
  shows "\<exists>e. bootstrap api s = (Some e, s\<lparr>http_session := http_session s @ [GetMe]\<rparr>)"
  using assms
  by (auto simp add: bootstrap_def verify_bot_def send_request_def verify_returns_def
      split: option.splits)

lemma bootstrap_fresh_returns:
  assumes "no_message_id s" and "verify_returns (api GetMe)"
  shows "bootstrap api s = initialise api (s\<lparr>http_session := http_session s @ [GetMe]\<rparr>)"
  using assms
  by (auto simp add: bootstrap_def verify_bot_def send_request_def verify_returns_def
      split: option.splits)

lemma flush_chunk_text_length:
  "\<not> file_path cfg s \<Longrightarrow> length (flush_chunk cfg s) \<le> 4050"
  using whole_lines_length [of "take 4050 (messages s)"] by (simp add: flush_chunk_def)

text \<open>When \<open>verify_bot\<close> does not return its pair, the flush ends after \<open>getMe\<close>.\<close>

lemma fresh_flush_raises:
  assumes "\<not> file_path cfg s" and "no_message_id s" and "\<not> verify_returns (api GetMe)"
  shows "posted s (snd (handle_logs cfg api s)) = [GetMe]"
    and "fst (handle_logs cfg api s) \<noteq> None"
proof -
  define s1 where "s1 = s\<lparr>messages := drop (length (flush_chunk cfg s)) (messages s)\<rparr>"
  have "no_message_id s1" using assms(2) by (simp add: s1_def no_message_id_def)
  then obtain e where b: "bootstrap api s1 = (Some e, s1\<lparr>http_session := http_session s1 @ [GetMe]\<rparr>)"
    using bootstrap_fresh_raises assms(3) by blast
  have hl: "handle_logs cfg api s = (Some e, s1\<lparr>http_session := http_session s1 @ [GetMe]\<rparr>)"
    using assms(1) by (simp add: handle_logs_text_path s1_def [symmetric] b)
  show "posted s (snd (handle_logs cfg api s)) = [GetMe]"
    by (simp add: hl posted_def s1_def)
  show "fst (handle_logs cfg api s) \<noteq> None"
    by (simp add: hl)
qed

text \<open>When it does, the initialising message is sent next.\<close>

lemma fresh_flush_initialises:
  assumes "\<not> file_path cfg s" and "no_message_id s" and "verify_returns (api GetMe)"
  shows "\<exists>rest. posted s (snd (handle_logs cfg api s)) = GetMe # SendInit # rest"
proof -
  define s1 where "s1 = s\<lparr>messages := drop (length (flush_chunk cfg s)) (messages s)\<rparr>"
  define g where "g = s1\<lparr>http_session := http_session s1 @ [GetMe]\<rparr>"
  have "no_message_id s1" using assms(2) by (simp add: s1_def no_message_id_def)
  then have b: "bootstrap api s1 = initialise api g"
    unfolding g_def using assms(3) by (rule bootstrap_fresh_returns)
  obtain e s2 where i: "initialise api g = (e, s2)" by (cases "initialise api g")
  have h2: "http_session s2 = http_session s @ [GetMe, SendInit]"
    using initialise_effect(1) [of api g] unfolding i by (simp add: g_def s1_def)
  show ?thesis
  proof (cases e)
    case (Some x)
    with assms(1) b i have "handle_logs cfg api s = (Some x, s2)"
      by (simp add: handle_logs_text_path s1_def [symmetric])
    with h2 show ?thesis by (simp add: posted_def)
  next
    case None
    with assms(1) b i have hl: "handle_logs cfg api s = compose api (flush_chunk cfg s) s2"
      by (simp add: handle_logs_text_path s1_def [symmetric])
    obtain more where "http_session (snd (compose api (flush_chunk cfg s) s2)) = http_session s2 @ more"
      using compose_posts by blast
    with h2 show ?thesis by (simp add: hl posted_def)
  qed
qed

text \<open>When the endpoint also accepts the initialising message and nothing is committed
  yet, the chunk is edited into the message just created.\<close>

lemma fresh_flush_creates_message:
  assumes "\<not> file_path cfg s" and "no_message_id s" and "verify_returns (api GetMe)"
    and "ok (api SendInit)" and "result (api SendInit) = Some r" and "current_msg s = []"
  shows "fst (handle_logs cfg api s) = None"
    and "posted s (snd (handle_logs cfg api s)) =
           [GetMe, SendInit, EditMessage (new_message_id r) (flush_chunk cfg s)]"
    and "message_id (snd (handle_logs cfg api s)) = new_message_id r"
    and "current_msg (snd (handle_logs cfg api s)) = flush_chunk cfg s"
proof -
  define s1 where "s1 = s\<lparr>messages := drop (length (flush_chunk cfg s)) (messages s)\<rparr>"
  define g where "g = s1\<lparr>http_session := http_session s1 @ [GetMe]\<rparr>"
  define s2 where "s2 = g\<lparr>http_session := http_session g @ [SendInit], message_id := new_message_id r\<rparr>"
  have "no_message_id s1" using assms(2) by (simp add: s1_def no_message_id_def)
  then have b: "bootstrap api s1 = initialise api g"
    unfolding g_def using assms(3) by (rule bootstrap_fresh_returns)
  have i: "initialise api g = (None, s2)"
    using assms(4,5) by (simp add: initialise_def send_request_def s2_def)
  have hl: "handle_logs cfg api s = compose api (flush_chunk cfg s) s2"
    using assms(1) by (simp add: handle_logs_text_path s1_def [symmetric] b i)
  have f2: "current_msg s2 = []" "message_id s2 = new_message_id r"
    "http_session s2 = http_session s @ [GetMe, SendInit]"
    using assms(6) by (simp_all add: s2_def g_def s1_def)
  have le: "length (current_msg s2 @ flush_chunk cfg s) \<le> 4050"
    using flush_chunk_text_length [OF assms(1)] by (simp add: f2)
  show "fst (handle_logs cfg api s) = None"
    using compose_no_overflow(1) [OF le, of api] by (simp add: hl)
  show "posted s (snd (handle_logs cfg api s)) =
      [GetMe, SendInit, EditMessage (new_message_id r) (flush_chunk cfg s)]"
    using compose_no_overflow(3) [OF le, of api] by (simp add: hl f2 posted_def)
  show "message_id (snd (handle_logs cfg api s)) = new_message_id r"
    using compose_no_overflow(4) [OF le, of api] by (simp add: hl f2)
  show "current_msg (snd (handle_logs cfg api s)) = flush_chunk cfg s"
    using compose_no_overflow(2) [OF le, of api] by (simp add: hl f2)
qed

section \<open>Properties\<close>

text \<open>
  C10 (as amended). \<open>handle_error\<close> changes no field but \<open>floodwait\<close>: the buffer, the
  committed text, the message identifier, the line counter, the time of the last flush
  and the session log stay as they are. \<open>floodwait\<close> becomes the response's
  \<open>retry_after\<close> when the response carries one that is not zero, and stays as it is in
  every other case, a \<open>retry_after\<close> of zero included.
\<close>

theorem handle_error_only_floodwait:
  "messages (handle_error resp s) = messages s \<and>
   current_msg (handle_error resp s) = current_msg s \<and>
   message_id (handle_error resp s) = message_id s \<and>
   lines (handle_error resp s) = lines s \<and>
   last_update (handle_error resp s) = last_update s \<and>
   http_session (handle_error resp s) = http_session s \<and>
   floodwait (handle_error resp s) =
     (case retry_after resp of
        None \<Rightarrow> floodwait s
      | Some r \<Rightarrow> if r = 0 then floodwait s else r)"
  by (simp add: handle_error_def retry_after_def split: option.splits)

text \<open>
  C10, the claim as stated fails: a response whose \<open>retry_after\<close> is \<open>0\<close> leaves a
  floor of 30 as it is, where the claim sets the floor to that value.
\<close>

theorem handle_error_retry_after_zero:
  "retry_after (flood_response 0) = Some 0 \<and>
   floodwait (handle_error (flood_response 0) (init_handler\<lparr>floodwait := 30\<rparr>)) = 30"
  by (simp add: handle_error_def retry_after_def flood_response_def init_handler_def)

text \<open>
  C2 (as amended). One flush takes a prefix off the buffer. On the text path the prefix
  has at most 4050 characters. On the file path it is bounded by the length of the
  buffer only, which is more than \<open>pending_logs\<close> there.
\<close>

theorem handle_logs_removes_bounded:
  "messages s = removed_span s (snd (handle_logs cfg api s)) @ messages (snd (handle_logs cfg api s)) \<and>
   length (removed_span s (snd (handle_logs cfg api s))) \<le>
     (if file_path cfg s then length (messages s) else 4050)"
proof -
  have span: "removed_span s (snd (handle_logs cfg api s)) = flush_chunk cfg s"
    by (rule handle_logs_removed_span)
  have m: "messages s = flush_chunk cfg s @ messages (snd (handle_logs cfg api s))"
    by (rule handle_logs_splits_buffer)
  have "length (flush_chunk cfg s) \<le> (if file_path cfg s then length (messages s) else 4050)"
  proof (cases "file_path cfg s")
    case True
    then show ?thesis by (simp add: flush_chunk_def whole_lines_length)
  next
    case False
    have "length (whole_lines (take 4050 (messages s))) \<le> length (take 4050 (messages s))"
      by (rule whole_lines_length)
    with False show ?thesis by (simp add: flush_chunk_def)
  qed
  with span m show ?thesis by simp
qed

text \<open>
  C2, the claim as stated fails: with \<open>pending_logs = 3\<close> and the one line \<open>abcdef\<close>
  in the buffer, the flush takes the file path and removes 6 characters.
\<close>

theorem file_path_removes_more_than_pending:
  "file_path (default_config\<lparr>pending := 3\<rparr>) (fst (emit default_config 10 10 ''abcdef'' init_handler)) \<and>
   removed_span (fst (emit default_config 10 10 ''abcdef'' init_handler))
     (snd (handle_logs (default_config\<lparr>pending := 3\<rparr>) ok_api
        (fst (emit default_config 10 10 ''abcdef'' init_handler)))) = ''abcdef''"
  by (simp add: file_path_def emit_def ignored_def default_config_def init_handler_def Let_def
      handle_logs_def whole_lines_def rsplit_head_def newline_def send_as_file_def
      send_request_def ok_api_def removed_span_def)

text \<open>
  C8 (as amended). A line that holds one of the configured substrings is dropped:
  \<open>emit\<close> returns the handler as it was and schedules nothing. Any other line is
  appended to the buffer with a newline after it, and the counter is incremented by
  one and then, when this call schedules a flush, reset to zero. With \<open>DEBUG\<close>
  configured, \<open>DEBUG: heartbeat\<close> is dropped and \<open>INFO: ok\<close> is buffered.
\<close>

theorem emit_filters_and_buffers:
  "(ignored cfg line \<longleftrightarrow>
      (\<exists>ms m p q. ignore_match cfg = Some ms \<and> m \<in> set ms \<and> line = p @ m @ q)) \<and>
   (ignored cfg line \<longrightarrow> emit cfg now now' line s = (s, False)) \<and>
   (\<not> ignored cfg line \<longrightarrow>
      messages (fst (emit cfg now now' line s)) = messages s @ line @ [newline] \<and>
      lines (fst (emit cfg now now' line s)) =
        (if snd (emit cfg now now' line s) then 0 else lines s + 1)) \<and>
   ignored (cfg\<lparr>ignore_match := Some [''DEBUG'']\<rparr>) ''DEBUG: heartbeat'' \<and>
   \<not> ignored (cfg\<lparr>ignore_match := Some [''DEBUG'']\<rparr>) ''INFO: ok''"
proof -
  have a: "ignored cfg line \<longleftrightarrow>
      (\<exists>ms m p q. ignore_match cfg = Some ms \<and> m \<in> set ms \<and> line = p @ m @ q)"
    by (cases "ignore_match cfg") (auto simp add: ignored_def any_match_iff contains_iff)
  have b: "ignored cfg line \<longrightarrow> emit cfg now now' line s = (s, False)"
    by (simp add: emit_def)
  have c: "\<not> ignored cfg line \<longrightarrow>
      messages (fst (emit cfg now now' line s)) = messages s @ line @ [newline] \<and>
      lines (fst (emit cfg now now' line s)) =
        (if snd (emit cfg now now' line s) then 0 else lines s + 1)"
    by (simp add: emit_def Let_def)
  have d: "ignored (cfg\<lparr>ignore_match := Some [''DEBUG'']\<rparr>) ''DEBUG: heartbeat''"
    by (simp add: ignored_def)
  have e: "\<not> ignored (cfg\<lparr>ignore_match := Some [''DEBUG'']\<rparr>) ''INFO: ok''"
    by (simp add: ignored_def)
  from a b c d e show ?thesis by blast
qed

theorem emit_filters_and_buffers_witness:
  "ignored (default_config\<lparr>ignore_match := Some [''DEBUG'']\<rparr>) ''DEBUG: heartbeat'' \<and>
   emit (default_config\<lparr>ignore_match := Some [''DEBUG'']\<rparr>) 10 10 ''DEBUG: heartbeat'' init_handler
     = (init_handler, False) \<and>
   \<not> ignored (default_config\<lparr>ignore_match := Some [''DEBUG'']\<rparr>) ''INFO: ok'' \<and>
   messages (fst (emit (default_config\<lparr>ignore_match := Some [''DEBUG'']\<rparr>) 2 2 ''INFO: ok'' init_handler))
     = ''INFO: ok'' @ [newline] \<and>
   lines (fst (emit (default_config\<lparr>ignore_match := Some [''DEBUG'']\<rparr>) 2 2 ''INFO: ok'' init_handler)) = 1"
proof -
  let ?cfg = "default_config\<lparr>ignore_match := Some [''DEBUG'']\<rparr>"
  have i: "ignored ?cfg ''DEBUG: heartbeat''" and n: "\<not> ignored ?cfg ''INFO: ok''"
    using emit_filters_and_buffers [of default_config] by simp_all
  have g: "\<not> snd (emit ?cfg 2 2 ''INFO: ok'' init_handler)"
    using n by (simp add: emit_def Let_def default_config_def init_handler_def)
  have "lines init_handler = 0" "messages init_handler = []"
    by (simp_all add: init_handler_def)
  with i n g emit_filters_and_buffers [of ?cfg "''DEBUG: heartbeat''" 10 10 init_handler]
    emit_filters_and_buffers [of ?cfg "''INFO: ok''" 2 2 init_handler]
  show ?thesis by simp
qed

text \<open>
  C8, the claim as stated fails: under the default configuration an accepted line that
  arrives 10 seconds after the start opens the gate, and the counter is 0 after the
  call, not 1.
\<close>

theorem emit_resets_counter:
  "\<not> ignored default_config ''INFO: ok'' \<and>
   lines init_handler = 0 \<and>
   emit default_config 10 10 ''INFO: ok'' init_handler =
     (init_handler\<lparr>messages := ''INFO: ok'' @ [newline], last_update := 10\<rparr>, True) \<and>
   lines (fst (emit default_config 10 10 ''INFO: ok'' init_handler)) = 0"
  by (simp add: emit_def ignored_def default_config_def init_handler_def Let_def)

text \<open>
  C5. For a line that is not ignored, \<open>emit\<close> schedules a flush exactly when the time
  since \<open>last_update\<close> is at least \<open>max(update_interval, floodwait)\<close> and the counter,
  this line included, is at least \<open>minimum_lines\<close>; an ignored line schedules
  nothing. A call that schedules records the flush: the counter and the floor are 0
  and \<open>last_update\<close> is the clock reading afterwards, so the next call measures its
  time from there and schedules nothing while less than \<open>update_interval\<close> has
  passed; a call that does not schedule only buffers the line and counts it. After
  an error with \<open>retry_after = 30\<close> and with \<open>update_interval = 5\<close>, a call schedules
  exactly when 30 seconds have passed since the last flush and the lines suffice, and
  no run of calls made before that schedules anything or lowers the floor. With
  \<open>update_interval = 5\<close> and \<open>minimum_lines = 3\<close>, on a handler with no line counted
  and no floor, two lines 6 seconds apart schedule nothing and a third line right
  after them does, and records its flush.
\<close>

theorem emit_gate:
  "(\<not> ignored cfg line \<longrightarrow>
      (snd (emit cfg now now' line s) \<longleftrightarrow>
         now - last_update s \<ge> real_of_int (max (wait_time cfg) (floodwait s)) \<and>
         lines s + 1 \<ge> minimum cfg)) \<and>
   (ignored cfg line \<longrightarrow> \<not> snd (emit cfg now now' line s)) \<and>
   (\<not> ignored cfg line \<and> snd (emit cfg now now' line s) \<longrightarrow>
      fst (emit cfg now now' line s) =
        s\<lparr>messages := messages s @ line @ [newline], floodwait := 0, lines := 0,
          last_update := now'\<rparr>) \<and>
   (\<not> ignored cfg line \<and> \<not> snd (emit cfg now now' line s) \<longrightarrow>
      fst (emit cfg now now' line s) =
        s\<lparr>lines := lines s + 1, messages := messages s @ line @ [newline]\<rparr>) \<and>
   (\<not> ignored cfg line \<and> snd (emit cfg now now' line s) \<and>
    later - now' < real_of_int (wait_time cfg) \<longrightarrow>
      \<not> snd (emit cfg later later' line2 (fst (emit cfg now now' line s)))) \<and>
   (retry_after resp = Some 30 \<and> wait_time cfg = 5 \<and> now - last_update s < 30 \<longrightarrow>
      \<not> snd (emit cfg now now' line (handle_error resp s))) \<and>
   (retry_after resp = Some 30 \<and> wait_time cfg = 5 \<and> \<not> ignored cfg line \<longrightarrow>
      (snd (emit cfg now now' line (handle_error resp s)) \<longleftrightarrow>
         now - last_update s \<ge> 30 \<and> lines s + 1 \<ge> minimum cfg)) \<and>
   (retry_after resp = Some 30 \<and> wait_time cfg = 5 \<and> emits_before (last_update s + 30) es \<longrightarrow>
      snd (run cfg es (handle_error resp s, n)) = n \<and>
      floodwait (fst (run cfg es (handle_error resp s, n))) = 30 \<and>
      last_update (fst (run cfg es (handle_error resp s, n))) = last_update s) \<and>
   (wait_time cfg = 5 \<and> minimum cfg = 3 \<and>
    \<not> ignored cfg l1 \<and> \<not> ignored cfg l2 \<and> \<not> ignored cfg l3 \<and>
    lines s = 0 \<and> floodwait s = 0 \<and> last_update s \<le> t \<and> t + 6 \<le> t3 \<longrightarrow>
      \<not> snd (emit cfg t t1' l1 s) \<and>
      \<not> snd (emit cfg (t + 6) t2' l2 (fst (emit cfg t t1' l1 s))) \<and>
      snd (emit cfg t3 t3' l3 (fst (emit cfg (t + 6) t2' l2 (fst (emit cfg t t1' l1 s))))) \<and>
      lines (fst (emit cfg t3 t3' l3 (fst (emit cfg (t + 6) t2' l2 (fst (emit cfg t t1' l1 s)))))) = 0 \<and>
      last_update (fst (emit cfg t3 t3' l3 (fst (emit cfg (t + 6) t2' l2 (fst (emit cfg t t1' l1 s)))))) = t3')"
proof -
  have a: "\<not> ignored cfg line \<longrightarrow>
      (snd (emit cfg now now' line s) \<longleftrightarrow>
         now - last_update s \<ge> real_of_int (max (wait_time cfg) (floodwait s)) \<and>
         lines s + 1 \<ge> minimum cfg)"
    by (simp add: emit_scheduled_iff)
  have b: "ignored cfg line \<longrightarrow> \<not> snd (emit cfg now now' line s)"
    by (simp add: emit_def)
  have rec: "\<not> ignored cfg line \<and> snd (emit cfg now now' line s) \<longrightarrow>
      fst (emit cfg now now' line s) =
        s\<lparr>messages := messages s @ line @ [newline], floodwait := 0, lines := 0,
          last_update := now'\<rparr>"
    using emit_scheduled_state [of cfg line now now' s] by blast
  have buf: "\<not> ignored cfg line \<and> \<not> snd (emit cfg now now' line s) \<longrightarrow>
      fst (emit cfg now now' line s) =
        s\<lparr>lines := lines s + 1, messages := messages s @ line @ [newline]\<rparr>"
    using emit_not_scheduled_state [of cfg line now now' s] by blast
  have nxt: "\<not> snd (emit cfg later later' line2 (fst (emit cfg now now' line s)))"
    if h: "\<not> ignored cfg line" "snd (emit cfg now now' line s)"
      "later - now' < real_of_int (wait_time cfg)"
  proof (cases "ignored cfg line2")
    case True
    then show ?thesis by (simp add: emit_def)
  next
    case False
    have "fst (emit cfg now now' line s) =
        s\<lparr>messages := messages s @ line @ [newline], floodwait := 0, lines := 0,
          last_update := now'\<rparr>"
      using h(1,2) by (rule emit_scheduled_state)
    moreover have "\<not> real_of_int (max (wait_time cfg) 0) \<le> later - now'"
      using h(3) by (simp add: max_def)
    ultimately show ?thesis
      using False by (simp add: emit_scheduled_iff)
  qed
  have c: "\<not> snd (emit cfg now now' line (handle_error resp s))"
    if h: "retry_after resp = Some 30" "wait_time cfg = 5" "now - last_update s < 30"
  proof -
    have "handle_error resp s = s\<lparr>floodwait := 30\<rparr>"
      using h(1) by (simp add: handle_error_retry_after)
    then show ?thesis
      using emit_refused_under_floor(1) [of "s\<lparr>floodwait := 30\<rparr>" cfg now now' line] h(2,3)
      by simp
  qed
  have c2: "snd (emit cfg now now' line (handle_error resp s)) \<longleftrightarrow>
         now - last_update s \<ge> 30 \<and> lines s + 1 \<ge> minimum cfg"
    if h: "retry_after resp = Some 30" "wait_time cfg = 5" "\<not> ignored cfg line"
  proof -
    have "handle_error resp s = s\<lparr>floodwait := 30\<rparr>"
      using h(1) by (simp add: handle_error_retry_after)
    with h(2,3) show ?thesis by (simp add: emit_scheduled_iff)
  qed
  have c3: "snd (run cfg es (handle_error resp s, n)) = n \<and>
      floodwait (fst (run cfg es (handle_error resp s, n))) = 30 \<and>
      last_update (fst (run cfg es (handle_error resp s, n))) = last_update s"
    if h: "retry_after resp = Some 30" "wait_time cfg = 5" "emits_before (last_update s + 30) es"
  proof -
    have e: "handle_error resp s = s\<lparr>floodwait := 30\<rparr>"
      using h(1) by (simp add: handle_error_retry_after)
    show ?thesis
      unfolding e using emits_before_refused [OF h(2), of "s\<lparr>floodwait := 30\<rparr>" es n] h(3)
      by simp
  qed
  have d: "\<not> snd (emit cfg t t1' l1 s) \<and>
      \<not> snd (emit cfg (t + 6) t2' l2 (fst (emit cfg t t1' l1 s))) \<and>
      snd (emit cfg t3 t3' l3 (fst (emit cfg (t + 6) t2' l2 (fst (emit cfg t t1' l1 s))))) \<and>
      lines (fst (emit cfg t3 t3' l3 (fst (emit cfg (t + 6) t2' l2 (fst (emit cfg t t1' l1 s)))))) = 0 \<and>
      last_update (fst (emit cfg t3 t3' l3 (fst (emit cfg (t + 6) t2' l2 (fst (emit cfg t t1' l1 s)))))) = t3'"
    if h: "wait_time cfg = 5" "minimum cfg = 3" "\<not> ignored cfg l1" "\<not> ignored cfg l2"
      "\<not> ignored cfg l3" "lines s = 0" "floodwait s = 0" "last_update s \<le> t" "t + 6 \<le> t3"
  proof -
    have n1: "\<not> snd (emit cfg t t1' l1 s)"
      using h by (simp add: emit_scheduled_iff)
    then have s1: "fst (emit cfg t t1' l1 s) = s\<lparr>lines := 1, messages := messages s @ l1 @ [newline]\<rparr>"
      using h by (simp add: emit_not_scheduled_state)
    have n2: "\<not> snd (emit cfg (t + 6) t2' l2 (fst (emit cfg t t1' l1 s)))"
      using h by (simp add: emit_scheduled_iff s1)
    then have s2: "fst (emit cfg (t + 6) t2' l2 (fst (emit cfg t t1' l1 s))) =
        s\<lparr>lines := 2, messages := (messages s @ l1 @ [newline]) @ l2 @ [newline]\<rparr>"
      using h by (simp add: emit_not_scheduled_state s1)
    have y3: "snd (emit cfg t3 t3' l3 (fst (emit cfg (t + 6) t2' l2 (fst (emit cfg t t1' l1 s)))))"
      using h by (simp add: emit_scheduled_iff s2)
    have s3: "fst (emit cfg t3 t3' l3 (fst (emit cfg (t + 6) t2' l2 (fst (emit cfg t t1' l1 s))))) =
        (fst (emit cfg (t + 6) t2' l2 (fst (emit cfg t t1' l1 s))))
          \<lparr>messages := messages (fst (emit cfg (t + 6) t2' l2 (fst (emit cfg t t1' l1 s)))) @ l3 @ [newline],
            floodwait := 0, lines := 0, last_update := t3'\<rparr>"
      using h(5) y3 by (rule emit_scheduled_state)
    have "lines (fst (emit cfg t3 t3' l3 (fst (emit cfg (t + 6) t2' l2 (fst (emit cfg t t1' l1 s)))))) = 0"
      and "last_update (fst (emit cfg t3 t3' l3 (fst (emit cfg (t + 6) t2' l2 (fst (emit cfg t t1' l1 s)))))) = t3'"
      by (subst s3, simp)+
    with n1 n2 y3 show ?thesis by simp
  qed
  have nxt': "\<not> ignored cfg line \<and> snd (emit cfg now now' line s) \<and>
      later - now' < real_of_int (wait_time cfg) \<longrightarrow>
      \<not> snd (emit cfg later later' line2 (fst (emit cfg now now' line s)))"
    using nxt by blast
  have c': "retry_after resp = Some 30 \<and> wait_time cfg = 5 \<and> now - last_update s < 30 \<longrightarrow>
      \<not> snd (emit cfg now now' line (handle_error resp s))"
    using c by blast
  have c2': "retry_after resp = Some 30 \<and> wait_time cfg = 5 \<and> \<not> ignored cfg line \<longrightarrow>
      (snd (emit cfg now now' line (handle_error resp s)) \<longleftrightarrow>
         now - last_update s \<ge> 30 \<and> lines s + 1 \<ge> minimum cfg)"
    using c2 by blast
  have c3': "retry_after resp = Some 30 \<and> wait_time cfg = 5 \<and>
      emits_before (last_update s + 30) es \<longrightarrow>
      snd (run cfg es (handle_error resp s, n)) = n \<and>
      floodwait (fst (run cfg es (handle_error resp s, n))) = 30 \<and>
      last_update (fst (run cfg es (handle_error resp s, n))) = last_update s"
    using c3 by blast
  have d': "wait_time cfg = 5 \<and> minimum cfg = 3 \<and>
      \<not> ignored cfg l1 \<and> \<not> ignored cfg l2 \<and> \<not> ignored cfg l3 \<and>
      lines s = 0 \<and> floodwait s = 0 \<and> last_update s \<le> t \<and> t + 6 \<le> t3 \<longrightarrow>
      \<not> snd (emit cfg t t1' l1 s) \<and>
      \<not> snd (emit cfg (t + 6) t2' l2 (fst (emit cfg t t1' l1 s))) \<and>
      snd (emit cfg t3 t3' l3 (fst (emit cfg (t + 6) t2' l2 (fst (emit cfg t t1' l1 s))))) \<and>
      lines (fst (emit cfg t3 t3' l3 (fst (emit cfg (t + 6) t2' l2 (fst (emit cfg t t1' l1 s)))))) = 0 \<and>
      last_update (fst (emit cfg t3 t3' l3 (fst (emit cfg (t + 6) t2' l2 (fst (emit cfg t t1' l1 s)))))) = t3'"
    using d by (intro impI) (elim conjE)
  show ?thesis
    by (intro conjI a b rec buf nxt' c' c2' c3' d')
qed

theorem emit_gate_witness:
  "\<not> ignored default_config ''a'' \<and>
   ignored (default_config\<lparr>ignore_match := Some [''a'']\<rparr>) ''a'' \<and>
   \<not> snd (emit (default_config\<lparr>ignore_match := Some [''a'']\<rparr>) 10 10 ''a'' init_handler) \<and>
   snd (emit default_config 10 10 ''a'' init_handler) \<and>
   fst (emit default_config 10 10 ''a'' init_handler) =
     init_handler\<lparr>messages := messages init_handler @ ''a'' @ [newline], floodwait := 0,
       lines := 0, last_update := 10\<rparr> \<and>
   \<not> snd (emit default_config 11 11 ''b'' (fst (emit default_config 10 10 ''a'' init_handler))) \<and>
   \<not> snd (emit default_config 4 4 ''a'' init_handler) \<and>
   fst (emit default_config 4 4 ''a'' init_handler) =
     init_handler\<lparr>lines := lines init_handler + 1, messages := messages init_handler @ ''a'' @ [newline]\<rparr> \<and>
   retry_after (flood_response 30) = Some 30 \<and>
   snd (emit default_config 29 29 ''a'' init_handler) \<and>
   \<not> snd (emit default_config 29 29 ''a'' (handle_error (flood_response 30) init_handler)) \<and>
   snd (emit default_config 30 30 ''a'' (handle_error (flood_response 30) init_handler)) \<and>
   emits_before (last_update init_handler + 30) [Emit 10 10 ''a'', Emit 29 29 ''b''] \<and>
   snd (run default_config [Emit 10 10 ''a'', Emit 29 29 ''b'']
      (handle_error (flood_response 30) init_handler, 0)) = 0 \<and>
   \<not> snd (emit (default_config\<lparr>minimum := 3\<rparr>) 10 10 ''a'' init_handler) \<and>
   \<not> snd (emit (default_config\<lparr>minimum := 3\<rparr>) 16 16 ''b''
       (fst (emit (default_config\<lparr>minimum := 3\<rparr>) 10 10 ''a'' init_handler))) \<and>
   snd (emit (default_config\<lparr>minimum := 3\<rparr>) 16 16 ''c''
       (fst (emit (default_config\<lparr>minimum := 3\<rparr>) 16 16 ''b''
          (fst (emit (default_config\<lparr>minimum := 3\<rparr>) 10 10 ''a'' init_handler)))))"
proof -
  let ?cfg = "default_config"
  let ?cfg3 = "default_config\<lparr>minimum := 3\<rparr>"
  let ?ign = "default_config\<lparr>ignore_match := Some [''a'']\<rparr>"
  let ?es = "[Emit 10 10 ''a'', Emit 29 29 ''b'']"
  have c: "wait_time ?cfg = 5" "minimum ?cfg = 1" "wait_time ?cfg3 = 5" "minimum ?cfg3 = 3"
    by (simp_all add: default_config_def)
  have n: "\<not> ignored ?cfg l" "\<not> ignored ?cfg3 l" for l
    by (simp_all add: ignored_def default_config_def)
  have i: "ignored ?ign ''a''" by (simp add: ignored_def)
  have r: "retry_after (flood_response 30) = Some 30"
    by (simp add: retry_after_def flood_response_def)
  have s: "lines init_handler = 0" "floodwait init_handler = 0" "last_update init_handler = 0"
    by (simp_all add: init_handler_def)
  have eb: "emits_before (last_update init_handler + 30) ?es" by (simp add: s)
  \<comment> \<open>an ignored line\<close>
  from emit_gate [where cfg = ?ign and line = "''a''" and now = 10 and now' = 10 and s = init_handler and later = 11 and later' = 11 and ?line2.0 = "''b''" and resp = "flood_response 30" and es = ?es and n = 0 and ?l1.0 = "''a''" and ?l2.0 = "''b''" and ?l3.0 = "''c''" and t = 10 and ?t1' = 10 and ?t2' = 16 and ?t3.0 = 16 and ?t3' = 16, THEN conjunct2, THEN conjunct1] i
  have w1: "\<not> snd (emit ?ign 10 10 ''a'' init_handler)" by blast
  \<comment> \<open>a call that schedules, and the next call one second later\<close>
  have g10: "10 - last_update init_handler \<ge> real_of_int (max (wait_time ?cfg) (floodwait init_handler)) \<and>
      lines init_handler + 1 \<ge> minimum ?cfg"
    by (simp add: c s)
  have soon: "(11::real) - 10 < real_of_int (wait_time ?cfg)" by (simp add: c)
  note t10 = emit_gate [where cfg = ?cfg and line = "''a''" and now = 10 and now' = 10 and s = init_handler and later = 11 and later' = 11 and ?line2.0 = "''b''" and resp = "flood_response 30" and es = ?es and n = 0 and ?l1.0 = "''a''" and ?l2.0 = "''b''" and ?l3.0 = "''c''" and t = 10 and ?t1' = 10 and ?t2' = 16 and ?t3.0 = 16 and ?t3' = 16]
  from t10 [THEN conjunct1] n(1) g10 have w2: "snd (emit ?cfg 10 10 ''a'' init_handler)" by blast
  from t10 [THEN conjunct2, THEN conjunct2, THEN conjunct1] n(1) w2 have w3: "fst (emit ?cfg 10 10 ''a'' init_handler) =
      init_handler\<lparr>messages := messages init_handler @ ''a'' @ [newline], floodwait := 0,
        lines := 0, last_update := 10\<rparr>"
    by blast
  from t10 [THEN conjunct2, THEN conjunct2, THEN conjunct2, THEN conjunct2, THEN conjunct1] n(1) w2 soon
  have w4: "\<not> snd (emit ?cfg 11 11 ''b'' (fst (emit ?cfg 10 10 ''a'' init_handler)))"
    by blast
  \<comment> \<open>a call that does not schedule\<close>
  have g4: "\<not> (4 - last_update init_handler \<ge> real_of_int (max (wait_time ?cfg) (floodwait init_handler)) \<and>
      lines init_handler + 1 \<ge> minimum ?cfg)"
    by (simp add: c s)
  note t4 = emit_gate [where cfg = ?cfg and line = "''a''" and now = 4 and now' = 4 and s = init_handler and later = 11 and later' = 11 and ?line2.0 = "''b''" and resp = "flood_response 30" and es = ?es and n = 0 and ?l1.0 = "''a''" and ?l2.0 = "''b''" and ?l3.0 = "''c''" and t = 10 and ?t1' = 10 and ?t2' = 16 and ?t3.0 = 16 and ?t3' = 16]
  from t4 [THEN conjunct1] n(1) g4 have w5: "\<not> snd (emit ?cfg 4 4 ''a'' init_handler)" by blast
  from t4 [THEN conjunct2, THEN conjunct2, THEN conjunct2, THEN conjunct1] n(1) w5 have w6: "fst (emit ?cfg 4 4 ''a'' init_handler) =
      init_handler\<lparr>lines := lines init_handler + 1, messages := messages init_handler @ ''a'' @ [newline]\<rparr>"
    by blast
  \<comment> \<open>29 seconds: scheduled without the error, refused after it; 30 seconds: scheduled\<close>
  have g29: "29 - last_update init_handler \<ge> real_of_int (max (wait_time ?cfg) (floodwait init_handler)) \<and>
      lines init_handler + 1 \<ge> minimum ?cfg"
    by (simp add: c s)
  have early: "29 - last_update init_handler < 30" by (simp add: s)
  note t29 = emit_gate [where cfg = ?cfg and line = "''a''" and now = 29 and now' = 29 and s = init_handler and later = 11 and later' = 11 and ?line2.0 = "''b''" and resp = "flood_response 30" and es = ?es and n = 0 and ?l1.0 = "''a''" and ?l2.0 = "''b''" and ?l3.0 = "''c''" and t = 10 and ?t1' = 10 and ?t2' = 16 and ?t3.0 = 16 and ?t3' = 16]
  from t29 [THEN conjunct1] n(1) g29 have w7: "snd (emit ?cfg 29 29 ''a'' init_handler)" by blast
  from t29 [THEN conjunct2, THEN conjunct2, THEN conjunct2, THEN conjunct2, THEN conjunct2, THEN conjunct1] r c(1) early
  have w8: "\<not> snd (emit ?cfg 29 29 ''a'' (handle_error (flood_response 30) init_handler))"
    by blast
  from t29 [THEN conjunct2, THEN conjunct2, THEN conjunct2, THEN conjunct2, THEN conjunct2, THEN conjunct2, THEN conjunct2, THEN conjunct1] r c(1) eb
  have w9: "snd (run ?cfg ?es (handle_error (flood_response 30) init_handler, 0)) = 0"
    by blast
  have g30: "30 - last_update init_handler \<ge> 30 \<and> lines init_handler + 1 \<ge> minimum ?cfg"
    by (simp add: c s)
  from emit_gate [where cfg = ?cfg and line = "''a''" and now = 30 and now' = 30 and s = init_handler and later = 11 and later' = 11 and ?line2.0 = "''b''" and resp = "flood_response 30" and es = ?es and n = 0 and ?l1.0 = "''a''" and ?l2.0 = "''b''" and ?l3.0 = "''c''" and t = 10 and ?t1' = 10 and ?t2' = 16 and ?t3.0 = 16 and ?t3' = 16, THEN conjunct2, THEN conjunct2, THEN conjunct2, THEN conjunct2, THEN conjunct2, THEN conjunct2, THEN conjunct1] r c(1) n(1) g30
  have w10: "snd (emit ?cfg 30 30 ''a'' (handle_error (flood_response 30) init_handler))"
    by blast
  \<comment> \<open>three lines with \<open>minimum_lines = 3\<close>\<close>
  have h3: "last_update init_handler \<le> 10" "(10::real) + 6 \<le> 16" by (simp_all add: s)
  from emit_gate [where cfg = ?cfg3 and line = "''a''" and now = 10 and now' = 10 and s = init_handler and later = 11 and later' = 11 and ?line2.0 = "''b''" and resp = "flood_response 30" and es = ?es and n = 0 and ?l1.0 = "''a''" and ?l2.0 = "''b''" and ?l3.0 = "''c''" and t = 10 and ?t1' = 10 and ?t2' = 16 and ?t3.0 = 16 and ?t3' = 16, THEN conjunct2, THEN conjunct2, THEN conjunct2, THEN conjunct2, THEN conjunct2, THEN conjunct2, THEN conjunct2, THEN conjunct2] c(3,4) n(2) s(1,2) h3
  have "\<not> snd (emit ?cfg3 10 10 ''a'' init_handler) \<and>
      \<not> snd (emit ?cfg3 (10 + 6) 16 ''b'' (fst (emit ?cfg3 10 10 ''a'' init_handler))) \<and>
      snd (emit ?cfg3 16 16 ''c'' (fst (emit ?cfg3 (10 + 6) 16 ''b''
        (fst (emit ?cfg3 10 10 ''a'' init_handler)))))"
    by blast
  then have w11: "\<not> snd (emit ?cfg3 10 10 ''a'' init_handler) \<and>
      \<not> snd (emit ?cfg3 16 16 ''b'' (fst (emit ?cfg3 10 10 ''a'' init_handler))) \<and>
      snd (emit ?cfg3 16 16 ''c'' (fst (emit ?cfg3 16 16 ''b''
        (fst (emit ?cfg3 10 10 ''a'' init_handler)))))"
    by simp
  from n(1) i w1 w2 w3 w4 w5 w6 r w7 w8 w10 eb w9 w11 show ?thesis
    by blast
qed

text \<open>
  C6 (as amended). When the buffer is longer than \<open>pending_logs\<close>, the flush takes the
  text before the last newline of the buffer, without that newline (the whole buffer
  when it has no newline, or when nothing stands before its last newline), removes
  exactly this span from the front of the buffer, posts it as one document and nothing
  else, and resets the session: the committed text is empty and the identifier is 0.
  A later flush on the text path then starts by verifying the bot again. When
  \<open>verify_bot\<close> returns its pair, the initialising message is sent next, and when the
  endpoint accepts it the chunk is edited into the message it created, whose
  identifier becomes the current one. When \<open>verify_bot\<close> does not return its pair,
  that flush ends after the one request, with an exception.
\<close>

theorem file_flush:
  assumes "file_path cfg s"
  shows "fst (handle_logs cfg api s) = None \<and>
    messages s = removed_span s (snd (handle_logs cfg api s)) @ messages (snd (handle_logs cfg api s)) \<and>
    (newline \<notin> set (messages s) \<longrightarrow> removed_span s (snd (handle_logs cfg api s)) = messages s) \<and>
    (\<forall>pre post. messages s = pre @ newline # post \<and> newline \<notin> set post \<longrightarrow>
       removed_span s (snd (handle_logs cfg api s)) = (if pre = [] then messages s else pre)) \<and>
    posted s (snd (handle_logs cfg api s)) = [SendDocument (removed_span s (snd (handle_logs cfg api s)))] \<and>
    current_msg (snd (handle_logs cfg api s)) = [] \<and>
    message_id (snd (handle_logs cfg api s)) = Some 0 \<and>
    (\<forall>api'. \<not> file_path cfg (snd (handle_logs cfg api s)) \<longrightarrow>
       (\<exists>rest. posted (snd (handle_logs cfg api s))
          (snd (handle_logs cfg api' (snd (handle_logs cfg api s)))) = GetMe # rest)) \<and>
    (\<forall>api'. \<not> file_path cfg (snd (handle_logs cfg api s)) \<and> \<not> verify_returns (api' GetMe) \<longrightarrow>
       posted (snd (handle_logs cfg api s))
         (snd (handle_logs cfg api' (snd (handle_logs cfg api s)))) = [GetMe] \<and>
       fst (handle_logs cfg api' (snd (handle_logs cfg api s))) \<noteq> None) \<and>
    (\<forall>api'. \<not> file_path cfg (snd (handle_logs cfg api s)) \<and> verify_returns (api' GetMe) \<longrightarrow>
       (\<exists>rest. posted (snd (handle_logs cfg api s))
          (snd (handle_logs cfg api' (snd (handle_logs cfg api s)))) = GetMe # SendInit # rest)) \<and>
    (\<forall>api' r. \<not> file_path cfg (snd (handle_logs cfg api s)) \<and> verify_returns (api' GetMe) \<and>
         ok (api' SendInit) \<and> result (api' SendInit) = Some r \<longrightarrow>
       fst (handle_logs cfg api' (snd (handle_logs cfg api s))) = None \<and>
       posted (snd (handle_logs cfg api s))
         (snd (handle_logs cfg api' (snd (handle_logs cfg api s)))) =
         [GetMe, SendInit,
          EditMessage (new_message_id r)
            (removed_span (snd (handle_logs cfg api s))
               (snd (handle_logs cfg api' (snd (handle_logs cfg api s)))))] \<and>
       message_id (snd (handle_logs cfg api' (snd (handle_logs cfg api s)))) = new_message_id r \<and>
       current_msg (snd (handle_logs cfg api' (snd (handle_logs cfg api s)))) =
         removed_span (snd (handle_logs cfg api s))
           (snd (handle_logs cfg api' (snd (handle_logs cfg api s)))))"
proof -
  define s' where "s' = snd (handle_logs cfg api s)"
  have span0: "removed_span s (snd (handle_logs cfg api s)) = flush_chunk cfg s"
    by (rule handle_logs_removed_span)
  then have span: "removed_span s s' = flush_chunk cfg s"
    by (simp only: s'_def)
  have span': "removed_span s' (snd (handle_logs cfg api' s')) = flush_chunk cfg s'" for api'
    by (rule handle_logs_removed_span)
  have a: "fst (handle_logs cfg api s) = None"
    using assms by (rule handle_logs_file_path)
  have b: "messages s = removed_span s s' @ messages s'"
    using handle_logs_splits_buffer [of s cfg api] by (simp add: s'_def span0)
  have c: "newline \<notin> set (messages s) \<longrightarrow> removed_span s s' = messages s"
    using flush_chunk_file_cases(1) [OF assms] by (simp add: span)
  have d: "\<forall>pre post. messages s = pre @ newline # post \<and> newline \<notin> set post \<longrightarrow>
       removed_span s s' = (if pre = [] then messages s else pre)"
    using flush_chunk_file_cases(2) [OF assms] by (simp add: span)
  have e: "posted s s' = [SendDocument (removed_span s s')]"
    using handle_logs_file_path(2) [OF assms, of api] by (simp add: posted_def s'_def span0)
  have f: "current_msg s' = []"
    unfolding s'_def using assms by (rule handle_logs_file_path)
  have g: "message_id s' = Some 0"
    unfolding s'_def using assms by (rule handle_logs_file_path)
  have nid: "no_message_id s'" using g by (simp add: no_message_id_def)
  have h: "\<forall>api'. \<not> file_path cfg s' \<longrightarrow>
       (\<exists>rest. posted s' (snd (handle_logs cfg api' s')) = GetMe # rest)"
    using nid by (simp add: handle_logs_text_first_request)
  have i: "\<forall>api'. \<not> file_path cfg s' \<and> \<not> verify_returns (api' GetMe) \<longrightarrow>
       posted s' (snd (handle_logs cfg api' s')) = [GetMe] \<and>
       fst (handle_logs cfg api' s') \<noteq> None"
    using nid fresh_flush_raises by blast
  have j: "\<forall>api'. \<not> file_path cfg s' \<and> verify_returns (api' GetMe) \<longrightarrow>
       (\<exists>rest. posted s' (snd (handle_logs cfg api' s')) = GetMe # SendInit # rest)"
    using nid fresh_flush_initialises by blast
  have k: "\<forall>api' r. \<not> file_path cfg s' \<and> verify_returns (api' GetMe) \<and>
         ok (api' SendInit) \<and> result (api' SendInit) = Some r \<longrightarrow>
       fst (handle_logs cfg api' s') = None \<and>
       posted s' (snd (handle_logs cfg api' s')) =
         [GetMe, SendInit,
          EditMessage (new_message_id r) (removed_span s' (snd (handle_logs cfg api' s')))] \<and>
       message_id (snd (handle_logs cfg api' s')) = new_message_id r \<and>
       current_msg (snd (handle_logs cfg api' s')) = removed_span s' (snd (handle_logs cfg api' s'))"
    unfolding span' using nid f fresh_flush_creates_message by blast
  show ?thesis
    unfolding s'_def [symmetric] by (intro conjI a b c d e f g h i j k)
qed

theorem file_flush_witness:
  "file_path (default_config\<lparr>pending := 3\<rparr>) (init_handler\<lparr>messages := ''abcdef'' @ [newline]\<rparr>) \<and>
   removed_span (init_handler\<lparr>messages := ''abcdef'' @ [newline]\<rparr>)
     (snd (handle_logs (default_config\<lparr>pending := 3\<rparr>) ok_api
        (init_handler\<lparr>messages := ''abcdef'' @ [newline]\<rparr>))) = ''abcdef'' \<and>
   posted (init_handler\<lparr>messages := ''abcdef'' @ [newline]\<rparr>)
     (snd (handle_logs (default_config\<lparr>pending := 3\<rparr>) ok_api
        (init_handler\<lparr>messages := ''abcdef'' @ [newline]\<rparr>))) = [SendDocument ''abcdef''] \<and>
   \<not> file_path (default_config\<lparr>pending := 3\<rparr>)
     (snd (handle_logs (default_config\<lparr>pending := 3\<rparr>) ok_api
        (init_handler\<lparr>messages := ''abcdef'' @ [newline]\<rparr>))) \<and>
   verify_returns (ok_api GetMe) \<and>
   ok (ok_api SendInit) \<and>
   result (ok_api SendInit) = Some (Result (Some ''logbot'') (Some 7)) \<and>
   posted
      (snd (handle_logs (default_config\<lparr>pending := 3\<rparr>) ok_api
         (init_handler\<lparr>messages := ''abcdef'' @ [newline]\<rparr>)))
      (snd (handle_logs (default_config\<lparr>pending := 3\<rparr>) ok_api
         (snd (handle_logs (default_config\<lparr>pending := 3\<rparr>) ok_api
            (init_handler\<lparr>messages := ''abcdef'' @ [newline]\<rparr>))))) =
     [GetMe, SendInit, EditMessage (Some 7) [newline]] \<and>
   message_id
      (snd (handle_logs (default_config\<lparr>pending := 3\<rparr>) ok_api
         (snd (handle_logs (default_config\<lparr>pending := 3\<rparr>) ok_api
            (init_handler\<lparr>messages := ''abcdef'' @ [newline]\<rparr>))))) = Some 7 \<and>
   \<not> verify_returns (flood_api GetMe) \<and>
   posted
      (snd (handle_logs (default_config\<lparr>pending := 3\<rparr>) ok_api
         (init_handler\<lparr>messages := ''abcdef'' @ [newline]\<rparr>)))
      (snd (handle_logs (default_config\<lparr>pending := 3\<rparr>) flood_api
         (snd (handle_logs (default_config\<lparr>pending := 3\<rparr>) ok_api
            (init_handler\<lparr>messages := ''abcdef'' @ [newline]\<rparr>))))) = [GetMe] \<and>
   fst (handle_logs (default_config\<lparr>pending := 3\<rparr>) flood_api
         (snd (handle_logs (default_config\<lparr>pending := 3\<rparr>) ok_api
            (init_handler\<lparr>messages := ''abcdef'' @ [newline]\<rparr>)))) \<noteq> None"
proof -
  define cfg where "cfg = default_config\<lparr>pending := 3\<rparr>"
  define s where "s = init_handler\<lparr>messages := ''abcdef'' @ [newline]\<rparr>"
  define s' where "s' = snd (handle_logs cfg ok_api s)"
  have fp: "file_path cfg s"
    by (simp add: file_path_def cfg_def s_def default_config_def init_handler_def)
  have m: "messages s = ''abcdef'' @ newline # []" and n: "newline \<notin> set []"
    by (simp_all add: s_def)
  note t = file_flush [OF fp, of ok_api, folded s'_def]
  from t [THEN conjunct2, THEN conjunct2, THEN conjunct2, THEN conjunct1] m n
  have span: "removed_span s s' = ''abcdef''"
    by (metis list.distinct(1))
  from t [THEN conjunct2, THEN conjunct1] span
  have rest: "messages s' = [newline]" by (simp add: s_def)
  then have tp: "\<not> file_path cfg s'"
    by (simp add: file_path_def cfg_def default_config_def)
  from t [THEN conjunct2, THEN conjunct2, THEN conjunct2, THEN conjunct2, THEN conjunct1] span
  have p: "posted s s' = [SendDocument ''abcdef'']" by simp
  have vr: "verify_returns (ok_api GetMe)" and okr: "ok (ok_api SendInit)"
    and res: "result (ok_api SendInit) = Some (Result (Some ''logbot'') (Some 7))"
    by (simp_all add: verify_returns_def ok_api_def)
  have nv: "\<not> verify_returns (flood_api GetMe)"
    by (simp add: verify_returns_def flood_api_def flood_response_def)
  have chunk': "removed_span s' (snd (handle_logs cfg ok_api s')) = [newline]"
  proof -
    have "flush_chunk cfg s' = [newline]"
      using tp by (simp add: flush_chunk_def rest whole_lines_def rsplit_head_def)
    then show ?thesis by (simp add: handle_logs_removed_span)
  qed
  from t [THEN conjunct2, THEN conjunct2, THEN conjunct2, THEN conjunct2, THEN conjunct2,
      THEN conjunct2, THEN conjunct2, THEN conjunct2, THEN conjunct2, THEN conjunct2]
    tp vr okr res
  have "posted s' (snd (handle_logs cfg ok_api s')) =
      [GetMe, SendInit, EditMessage (new_message_id (Result (Some ''logbot'') (Some 7)))
         (removed_span s' (snd (handle_logs cfg ok_api s')))] \<and>
    message_id (snd (handle_logs cfg ok_api s')) = new_message_id (Result (Some ''logbot'') (Some 7))"
    by blast
  then have q: "posted s' (snd (handle_logs cfg ok_api s')) =
      [GetMe, SendInit, EditMessage (Some 7) [newline]]"
    and id': "message_id (snd (handle_logs cfg ok_api s')) = Some 7"
    by (simp_all add: chunk')
  from t [THEN conjunct2, THEN conjunct2, THEN conjunct2, THEN conjunct2, THEN conjunct2,
      THEN conjunct2, THEN conjunct2, THEN conjunct2, THEN conjunct1] tp nv
  have x: "posted s' (snd (handle_logs cfg flood_api s')) = [GetMe] \<and>
      fst (handle_logs cfg flood_api s') \<noteq> None"
    by blast
  from fp span p tp vr okr res q id' nv x show ?thesis
    unfolding s'_def s_def cfg_def by blast
qed

text \<open>
  C6, the claim as stated fails: with \<open>pending_logs = 3\<close> and the buffer holding the
  line \<open>abcdef\<close> and its newline, the document posted is \<open>abcdef\<close> without the
  newline, and the newline stays in the buffer.
\<close>

theorem file_flush_leaves_newline:
  "file_path (default_config\<lparr>pending := 3\<rparr>) (init_handler\<lparr>messages := ''abcdef'' @ [newline]\<rparr>) \<and>
   posted (init_handler\<lparr>messages := ''abcdef'' @ [newline]\<rparr>)
     (snd (handle_logs (default_config\<lparr>pending := 3\<rparr>) ok_api
        (init_handler\<lparr>messages := ''abcdef'' @ [newline]\<rparr>))) = [SendDocument ''abcdef''] \<and>
   messages (snd (handle_logs (default_config\<lparr>pending := 3\<rparr>) ok_api
        (init_handler\<lparr>messages := ''abcdef'' @ [newline]\<rparr>))) = [newline]"
  by (simp add: file_path_def default_config_def init_handler_def Let_def
      handle_logs_def whole_lines_def rsplit_head_def newline_def send_as_file_def
      send_request_def ok_api_def posted_def)

text \<open>
  C7 (as amended). On the text path the chunk is a prefix of the buffer, taken from its
  first 4050 characters: the text before the last newline of that slice, without the
  newline, when some text stands before it; the full slice when the slice has no
  newline, and also when its only newline is its first character.
\<close>

theorem text_chunk_boundary:
  assumes "\<not> file_path cfg s"
  shows "messages s = removed_span s (snd (handle_logs cfg api s)) @ messages (snd (handle_logs cfg api s)) \<and>
    (newline \<notin> set (take 4050 (messages s)) \<longrightarrow>
       removed_span s (snd (handle_logs cfg api s)) = take 4050 (messages s)) \<and>
    (\<forall>pre post. take 4050 (messages s) = pre @ newline # post \<and> newline \<notin> set post \<longrightarrow>
       removed_span s (snd (handle_logs cfg api s)) =
         (if pre = [] then take 4050 (messages s) else pre))"
proof -
  let ?s' = "snd (handle_logs cfg api s)"
  have span: "removed_span s ?s' = flush_chunk cfg s" by (rule handle_logs_removed_span)
  have a: "messages s = removed_span s ?s' @ messages ?s'"
    using handle_logs_splits_buffer [of s cfg api] by (simp add: span)
  have b: "newline \<notin> set (take 4050 (messages s)) \<longrightarrow> removed_span s ?s' = take 4050 (messages s)"
    using flush_chunk_text_cases(1) [OF assms] by (simp add: span)
  have c: "\<forall>pre post. take 4050 (messages s) = pre @ newline # post \<and> newline \<notin> set post \<longrightarrow>
       removed_span s ?s' = (if pre = [] then take 4050 (messages s) else pre)"
    using flush_chunk_text_cases(2) [OF assms] by (simp add: span)
  from a b c show ?thesis by blast
qed

theorem text_chunk_boundary_witness:
  "\<not> file_path default_config (init_handler\<lparr>messages := ''abc''\<rparr>) \<and>
   newline \<notin> set (take 4050 (messages (init_handler\<lparr>messages := ''abc''\<rparr>))) \<and>
   removed_span (init_handler\<lparr>messages := ''abc''\<rparr>)
     (snd (handle_logs default_config ok_api (init_handler\<lparr>messages := ''abc''\<rparr>))) = ''abc'' \<and>
   \<not> file_path default_config (init_handler\<lparr>messages := ''a'' @ newline # ''b'' @ [newline]\<rparr>) \<and>
   take 4050 (messages (init_handler\<lparr>messages := ''a'' @ newline # ''b'' @ [newline]\<rparr>)) =
     (''a'' @ newline # ''b'') @ newline # [] \<and>
   removed_span (init_handler\<lparr>messages := ''a'' @ newline # ''b'' @ [newline]\<rparr>)
     (snd (handle_logs default_config ok_api
        (init_handler\<lparr>messages := ''a'' @ newline # ''b'' @ [newline]\<rparr>))) = ''a'' @ newline # ''b''"
proof -
  let ?s1 = "init_handler\<lparr>messages := ''abc''\<rparr>"
  let ?s2 = "init_handler\<lparr>messages := ''a'' @ newline # ''b'' @ [newline]\<rparr>"
  have t1: "\<not> file_path default_config ?s1" and t2: "\<not> file_path default_config ?s2"
    by (simp_all add: file_path_def default_config_def)
  have n1: "newline \<notin> set (take 4050 (messages ?s1))"
    by (simp add: newline_def)
  have m2: "take 4050 (messages ?s2) = (''a'' @ newline # ''b'') @ newline # []"
    by simp
  have n2: "newline \<notin> set []" and ne: "''a'' @ newline # ''b'' \<noteq> []" by simp_all
  have r1: "removed_span ?s1 (snd (handle_logs default_config ok_api ?s1)) = ''abc''"
    using text_chunk_boundary [OF t1, of ok_api] n1 by simp
  have r2: "removed_span ?s2 (snd (handle_logs default_config ok_api ?s2)) = ''a'' @ newline # ''b''"
    using text_chunk_boundary [OF t2, of ok_api] m2 n2 ne by (metis (full_types))
  from t1 t2 n1 m2 r1 r2 show ?thesis by blast
qed

text \<open>
  C7, the claim as stated fails: after a first line has been flushed its newline heads
  the buffer; a line of 5000 characters behind it gives a first slice of that newline
  and 4049 characters. The slice holds a newline, and the chunk is the full slice.
\<close>

theorem full_slice_despite_newline:
  "messages (fst (run default_config
      [Emit 10 10 ''a'', RunTask ok_api, Emit 20 20 (replicate 5000 (CHR ''x''))] (init_handler, 0))) =
     newline # replicate 5000 (CHR ''x'') @ [newline] \<and>
   newline \<in> set (take 4050 (messages (fst (run default_config
      [Emit 10 10 ''a'', RunTask ok_api, Emit 20 20 (replicate 5000 (CHR ''x''))] (init_handler, 0))))) \<and>
   removed_span
     (fst (run default_config
        [Emit 10 10 ''a'', RunTask ok_api, Emit 20 20 (replicate 5000 (CHR ''x''))] (init_handler, 0)))
     (snd (handle_logs default_config ok_api (fst (run default_config
        [Emit 10 10 ''a'', RunTask ok_api, Emit 20 20 (replicate 5000 (CHR ''x''))] (init_handler, 0))))) =
     take 4050 (messages (fst (run default_config
        [Emit 10 10 ''a'', RunTask ok_api, Emit 20 20 (replicate 5000 (CHR ''x''))] (init_handler, 0))))"
proof -
  define x where "x = replicate 5000 (CHR ''x'')"
  define s where "s = fst (run default_config
      [Emit 10 10 ''a'', RunTask ok_api, Emit 20 20 x] (init_handler, 0))"
  have "run default_config [Emit 10 10 ''a'', RunTask ok_api, Emit 20 20 x] (init_handler, 0) =
      step default_config (Emit 20 20 x)
        (run default_config [Emit 10 10 ''a'', RunTask ok_api] (init_handler, 0))"
    by (simp only: run.simps)
  then have "s = fst (step default_config (Emit 20 20 x)
      (\<lparr> messages = [newline], current_msg = ''a'', floodwait = 0, message_id = Some 7,
         lines = 0, last_update = 10,
         http_session = [GetMe, SendInit, EditMessage (Some 7) ''a''] \<rparr>, 0))"
    by (simp only: s_def first_line_flushed)
  then have m: "messages s = newline # x @ [newline]"
    by (simp add: emit_def ignored_def default_config_def Let_def)
  have slice: "take 4050 (messages s) = newline # replicate 4049 (CHR ''x'')"
    by (simp add: m x_def)
  have tp: "\<not> file_path default_config s"
    by (simp add: file_path_def m default_config_def x_def)
  have "flush_chunk default_config s = whole_lines (newline # replicate 4049 (CHR ''x''))"
    using tp by (simp add: flush_chunk_def slice)
  also have "\<dots> = newline # replicate 4049 (CHR ''x'')"
    by (rule whole_lines_leading_newline) (simp add: newline_def)
  finally have "removed_span s (snd (handle_logs default_config ok_api s)) = take 4050 (messages s)"
    by (simp add: handle_logs_removed_span slice)
  moreover have "newline \<in> set (take 4050 (messages s))"
    by (simp add: slice)
  ultimately show ?thesis
    using m unfolding s_def x_def by blast
qed

text \<open>
  C3. The claim bounds every text handed to \<open>send_message\<close> and \<open>edit_message\<close> by
  4050 characters. The code breaks it for the remainder of a roll-over: with the
  producer of long lines the third flush composes 8100 characters, edits the message
  down to \<open>a\<close>, and hands \<open>send_message\<close> the other 8099 characters.
\<close>

theorem oversized_remainder_sent:
  "http_session (fst (run default_config long_lines_run (init_handler, 0))) =
     [GetMe, SendInit, EditMessage (Some 7) ''a'',
      EditMessage (Some 7) (''a'' @ newline # replicate 4048 (CHR ''x'')),
      EditMessage (Some 7) ''a'',
      SendMessage (newline # replicate 4048 (CHR ''x'') @ newline # replicate 4049 (CHR ''z''))] \<and>
   length (newline # replicate 4048 (CHR ''x'') @ newline # replicate 4049 (CHR ''z'')) = 8099"
proof -
  define x where "x = replicate 4048 (CHR ''x'')"
  define z where "z = replicate 4049 (CHR ''z'')"
  define cfg where "cfg = default_config"
  have lx: "length x = 4048" and lz: "length z = 4049" by (simp_all add: x_def z_def)
  have nx: "newline \<notin> set x" and nz: "newline \<notin> set z"
    by (simp_all add: x_def z_def newline_def)
  have ign: "\<not> ignored cfg l" for l by (simp add: ignored_def cfg_def default_config_def)
  have c: "wait_time cfg = 5" "minimum cfg = 1" "pending cfg = 200000"
    by (simp_all add: cfg_def default_config_def)
  \<comment> \<open>the first line and its flush\<close>
  define s1 where "s1 = \<lparr> messages = [newline], current_msg = ''a'', floodwait = 0,
     message_id = Some 7, lines = 0, last_update = 10,
     http_session = [GetMe, SendInit, EditMessage (Some 7) ''a''] \<rparr>"
  have r1: "run cfg [Emit 10 10 ''a'', RunTask ok_api] (init_handler, 0) = (s1, 0)"
    by (simp only: cfg_def s1_def first_line_flushed)
  \<comment> \<open>the second line\<close>
  define s2 where "s2 = s1\<lparr>messages := messages s1 @ x @ [newline], floodwait := 0, lines := 0,
     last_update := 20\<rparr>"
  have "snd (emit cfg 20 20 x s1)"
    using c by (simp add: emit_scheduled_iff [OF ign] s1_def)
  then have e2: "step cfg (Emit 20 20 x) (s1, 0) = (s2, Suc 0)"
    unfolding s2_def using ign by (rule step_emit_scheduled [rotated])
  \<comment> \<open>its flush: no overflow, the committed text reaches 4050 characters\<close>
  have m2: "messages s2 = (newline # x) @ newline # []" by (simp add: s2_def s1_def)
  have t2: "\<not> file_path cfg s2" by (simp add: file_path_def m2 lx c)
  have i2: "\<not> no_message_id s2" by (simp add: no_message_id_def s2_def s1_def)
  have "take 4050 (messages s2) = (newline # x) @ newline # []"
    by (simp add: m2 lx)
  then have k2: "flush_chunk cfg s2 = newline # x"
    using t2 whole_lines_split [of "[]" "newline # x"] by (simp add: flush_chunk_def)
  define s3 where "s3 = snd (handle_logs cfg ok_api s2)"
  have cur2: "current_msg s2 = ''a''" and id2: "message_id s2 = Some 7"
    by (simp_all add: s2_def s1_def)
  have "length (current_msg s2 @ flush_chunk cfg s2) \<le> 4050"
    by (simp add: k2 lx cur2)
  from flush_ok_no_overflow [OF t2 i2 this]
  have f3: "s3 = s2\<lparr>messages := [newline],
       http_session := http_session s2 @ [EditMessage (Some 7) (''a'' @ newline # x)],
       current_msg := ''a'' @ newline # x\<rparr>"
    by (simp add: s3_def k2 m2 lx cur2 id2)
  \<comment> \<open>the third line\<close>
  define s4 where "s4 = s3\<lparr>messages := messages s3 @ z @ [newline], floodwait := 0, lines := 0,
     last_update := 30\<rparr>"
  have "snd (emit cfg 30 30 z s3)"
    using c by (simp add: emit_scheduled_iff [OF ign] f3 s2_def s1_def)
  then have e4: "step cfg (Emit 30 30 z) (s3, 0) = (s4, Suc 0)"
    unfolding s4_def using ign by (rule step_emit_scheduled [rotated])
  \<comment> \<open>its flush: the chunk is the full slice, the candidate has 8100 characters\<close>
  have m4: "messages s4 = newline # z @ [newline]" by (simp add: s4_def f3)
  have t4: "\<not> file_path cfg s4" by (simp add: file_path_def m4 lz c)
  have i4: "\<not> no_message_id s4" by (simp add: no_message_id_def s4_def f3 s2_def s1_def)
  have "take 4050 (messages s4) = newline # z" by (simp add: m4 lz)
  then have k4: "flush_chunk cfg s4 = newline # z"
    using t4 whole_lines_leading_newline [OF nz] by (simp add: flush_chunk_def)
  have cur4: "current_msg s4 = ''a'' @ newline # x" by (simp add: s4_def f3)
  have cand: "current_msg s4 @ flush_chunk cfg s4 = ''a'' @ newline # x @ newline # z"
    by (simp add: cur4 k4)
  have big: "length (current_msg s4 @ flush_chunk cfg s4) > 4050"
    by (simp add: cand lx lz)
  have "take 4050 (current_msg s4 @ flush_chunk cfg s4) = ''a'' @ newline # x"
    by (simp add: cand lx)
  then have left: "whole_lines (take 4050 (current_msg s4 @ flush_chunk cfg s4)) = ''a''"
    using whole_lines_split [OF nx, of "''a''"] by simp
  have ne: "''a'' \<noteq> current_msg s4" by (simp add: cur4)
  define s5 where "s5 = snd (handle_logs cfg ok_api s4)"
  from flush_ok_overflow [OF t4 i4 big left ne]
  have h5: "http_session s5 = http_session s4 @
      [EditMessage (message_id s4) ''a'', SendMessage (newline # x @ newline # z)]"
    by (simp add: s5_def cand)
  have h4: "http_session s4 = [GetMe, SendInit, EditMessage (Some 7) ''a'',
      EditMessage (Some 7) (''a'' @ newline # x)]"
    and id4: "message_id s4 = Some 7"
    by (simp_all add: s4_def f3 s2_def s1_def)
  \<comment> \<open>the run\<close>
  have "run cfg long_lines_run (init_handler, 0) =
      step cfg (RunTask ok_api) (step cfg (Emit 30 30 z)
        (step cfg (RunTask ok_api) (step cfg (Emit 20 20 x)
          (run cfg [Emit 10 10 ''a'', RunTask ok_api] (init_handler, 0)))))"
    by (simp only: long_lines_run_def run.simps x_def z_def)
  also have "\<dots> = (s5, 0)"
  proof -
    have e3: "step cfg (RunTask ok_api) (s2, Suc 0) = (s3, 0)" by (simp add: s3_def)
    have e5: "step cfg (RunTask ok_api) (s4, Suc 0) = (s5, 0)" by (simp add: s5_def)
    show ?thesis by (simp only: r1 e2 e3 e4 e5)
  qed
  finally have "http_session (fst (run cfg long_lines_run (init_handler, 0))) =
      [GetMe, SendInit, EditMessage (Some 7) ''a'', EditMessage (Some 7) (''a'' @ newline # x),
       EditMessage (Some 7) ''a'', SendMessage (newline # x @ newline # z)]"
    by (simp add: h5 h4 id4)
  moreover have "length (newline # x @ newline # z) = 8099" by (simp add: lx lz)
  ultimately show ?thesis unfolding x_def z_def cfg_def by blast
qed

text \<open>
  C9. The claim has every error response caught at the flush and routed to
  \<open>handle_error\<close>. The code breaks it for verify-identity: on a first flush, a
  flood-control answer to \<open>getMe\<close> makes \<open>verify_bot\<close> raise \<open>AttributeError\<close>; the
  flush ends there, after one request, with the chunk already taken off the buffer and
  \<open>floodwait\<close> still 0. The same answer to \<open>editMessageText\<close>, with an identifier in
  place, is routed: no exception, \<open>floodwait\<close> 30.
\<close>

theorem verify_bot_error_escapes:
  "handle_logs default_config flood_api (fst (emit default_config 10 10 ''a'' init_handler)) =
     (Some AttributeError,
      init_handler\<lparr>messages := [newline], last_update := 10, http_session := [GetMe]\<rparr>) \<and>
   handle_logs default_config flood_api
     ((fst (emit default_config 10 10 ''a'' init_handler))\<lparr>message_id := Some 7\<rparr>) =
     (None,
      init_handler\<lparr>messages := [newline], current_msg := ''a'', floodwait := 30,
        message_id := Some 7, last_update := 10,
        http_session := [EditMessage (Some 7) ''a'']\<rparr>)"
  by (simp add: emit_def ignored_def default_config_def init_handler_def Let_def
      handle_logs_def whole_lines_def rsplit_head_def newline_def bootstrap_def
      no_message_id_def verify_bot_def send_request_def flood_api_def flood_response_def
      compose_def edit_message_def handle_error_def)

text \<open>
  C4 (as amended). When the candidate, the committed text followed by the chunk, is
  longer than 4050 characters, the flush splits it into a left part and a remainder
  that concatenate back to the candidate. The left part is the text before the last
  newline among the first 4050 characters, when some text stands before that newline;
  it is the first 4050 characters when they hold no newline, and also when their only
  newline is the first character. The flush edits the current message with the left
  part only when it differs from the committed text, then sends the remainder as a new
  message and commits it; when the endpoint accepts that message, its identifier
  replaces the old one.
\<close>

theorem rollover_split:
  assumes "\<not> file_path cfg s"
    and "bootstrap api (s\<lparr>messages := drop (length (flush_chunk cfg s)) (messages s)\<rparr>) = (None, s2)"
    and "length (current_msg s @ flush_chunk cfg s) > 4050"
  shows "\<exists>left.
    current_msg s @ flush_chunk cfg s = left @ current_msg (snd (handle_logs cfg api s)) \<and>
    (newline \<notin> set (take 4050 (current_msg s @ flush_chunk cfg s)) \<longrightarrow>
       left = take 4050 (current_msg s @ flush_chunk cfg s)) \<and>
    (\<forall>pre post. take 4050 (current_msg s @ flush_chunk cfg s) = pre @ newline # post \<and>
         newline \<notin> set post \<longrightarrow>
       left = (if pre = [] then take 4050 (current_msg s @ flush_chunk cfg s) else pre)) \<and>
    posted s2 (snd (handle_logs cfg api s)) =
      (if left \<noteq> current_msg s then [EditMessage (message_id s2) left] else []) @
      [SendMessage (current_msg (snd (handle_logs cfg api s)))] \<and>
    (\<forall>r. ok (api (SendMessage (current_msg (snd (handle_logs cfg api s))))) \<and>
         result (api (SendMessage (current_msg (snd (handle_logs cfg api s))))) = Some r \<longrightarrow>
       fst (handle_logs cfg api s) = None \<and>
       message_id (snd (handle_logs cfg api s)) = new_message_id r)"
proof -
  define cand where "cand = current_msg s @ flush_chunk cfg s"
  define left where "left = whole_lines (take 4050 cand)"
  define s' where "s' = snd (handle_logs cfg api s)"
  have cur2: "current_msg s2 = current_msg s"
    using bootstrap_current_msg [of api "s\<lparr>messages := drop (length (flush_chunk cfg s)) (messages s)\<rparr>"]
    by (simp add: assms(2))
  have hl: "handle_logs cfg api s = compose api (flush_chunk cfg s) s2"
    using assms(1,2) by (simp add: handle_logs_text_path)
  have big: "length (current_msg s2 @ flush_chunk cfg s) > 4050"
    using assms(3) by (simp only: cur2)
  have cur': "current_msg s' = drop (length left) cand"
    using compose_overflow(1) [OF big, of api] by (simp only: s'_def hl cur2 left_def cand_def)
  have "prefix left (take 4050 cand)"
    unfolding left_def by (rule whole_lines_prefix)
  then have "prefix left cand"
    using take_is_prefix [of 4050 cand] by (rule prefix_order.trans)
  then have a: "cand = left @ current_msg s'"
    by (simp add: cur' prefix_append_drop)
  have b: "newline \<notin> set (take 4050 cand) \<longrightarrow> left = take 4050 cand"
    by (simp add: left_def whole_lines_no_newline)
  have c: "\<forall>pre post. take 4050 cand = pre @ newline # post \<and> newline \<notin> set post \<longrightarrow>
       left = (if pre = [] then take 4050 cand else pre)"
    by (auto simp add: left_def whole_lines_split)
  have "http_session s' = http_session s2 @
      (if left \<noteq> current_msg s then [EditMessage (message_id s2) left] else []) @
      [SendMessage (drop (length left) cand)]"
    using compose_overflow(2) [OF big, of api]
    by (simp add: s'_def hl cur2 left_def cand_def)
  then have "http_session s' = http_session s2 @
      (if left \<noteq> current_msg s then [EditMessage (message_id s2) left] else []) @
      [SendMessage (current_msg s')]"
    by (simp only: cur')
  then have d: "posted s2 s' =
      (if left \<noteq> current_msg s then [EditMessage (message_id s2) left] else []) @
      [SendMessage (current_msg s')]"
    by (simp add: posted_def)
  have e: "fst (handle_logs cfg api s) = None \<and> message_id s' = new_message_id r"
    if h: "ok (api (SendMessage (current_msg s')))"
      "result (api (SendMessage (current_msg s'))) = Some r" for r
  proof -
    define m where "m = current_msg s'"
    define t where "t = (if left \<noteq> current_msg s then edit_message api left s2 else s2)
        \<lparr>current_msg := m\<rparr>"
    have "compose api (flush_chunk cfg s) s2 = send_message api m t"
      using big unfolding compose_def Let_def cur2 m_def t_def cur' left_def cand_def by simp
    moreover have "send_message api m t =
        (None, t\<lparr>http_session := http_session t @ [SendMessage m], message_id := new_message_id r\<rparr>)"
      using h unfolding m_def by (rule send_message_ok)
    ultimately show ?thesis
      by (simp add: s'_def hl)
  qed
  from a b c d e show ?thesis
    unfolding cand_def s'_def by blast
qed

theorem rollover_split_witness:
  "\<not> file_path default_config full_message_handler \<and>
   bootstrap ok_api (full_message_handler\<lparr>messages :=
       drop (length (flush_chunk default_config full_message_handler)) (messages full_message_handler)\<rparr>) =
     (None, full_message_handler\<lparr>messages := [newline]\<rparr>) \<and>
   length (current_msg full_message_handler @ flush_chunk default_config full_message_handler) > 4050 \<and>
   take 4050 (current_msg full_message_handler @ flush_chunk default_config full_message_handler) =
     ''a'' @ newline # replicate 4048 (CHR ''x'') \<and>
   current_msg (snd (handle_logs default_config ok_api full_message_handler)) =
     newline # replicate 4048 (CHR ''x'') @ newline # ''b'' \<and>
   posted (full_message_handler\<lparr>messages := [newline]\<rparr>)
       (snd (handle_logs default_config ok_api full_message_handler)) =
     [EditMessage (Some 7) ''a'', SendMessage (newline # replicate 4048 (CHR ''x'') @ newline # ''b'')] \<and>
   message_id (snd (handle_logs default_config ok_api full_message_handler)) = Some 7 \<and>
   \<not> file_path default_config one_line_handler \<and>
   newline \<notin> set (take 4050 (current_msg one_line_handler @ flush_chunk default_config one_line_handler)) \<and>
   current_msg (snd (handle_logs default_config ok_api one_line_handler)) = ''b'' \<and>
   posted (one_line_handler\<lparr>messages := [newline]\<rparr>)
       (snd (handle_logs default_config ok_api one_line_handler)) = [SendMessage ''b'']"
proof -
  define x where "x = replicate 4048 (CHR ''x'')"
  have lx: "length x = 4048" and nx: "newline \<notin> set x"
    by (simp_all add: x_def newline_def)
  \<comment> \<open>the first handler: a split at a newline\<close>
  define s where "s = full_message_handler"
  define s' where "s' = snd (handle_logs default_config ok_api s)"
  have f: "messages s = newline # ''b'' @ [newline]" "current_msg s = ''a'' @ newline # x"
    "message_id s = Some 7"
    by (simp_all add: s_def full_message_handler_def x_def)
  have t: "\<not> file_path default_config s"
    by (simp add: file_path_def f default_config_def)
  have k: "flush_chunk default_config s = newline # ''b''"
    using t by (simp add: flush_chunk_def f whole_lines_def rsplit_head_def newline_def)
  have b: "bootstrap ok_api (s\<lparr>messages := drop (length (flush_chunk default_config s)) (messages s)\<rparr>) =
      (None, s\<lparr>messages := [newline]\<rparr>)"
    by (simp add: k f bootstrap_def no_message_id_def)
  have cand: "current_msg s @ flush_chunk default_config s = ''a'' @ newline # x @ newline # ''b''"
    by (simp add: f k)
  have big: "length (current_msg s @ flush_chunk default_config s) > 4050"
    by (simp add: cand lx)
  have slice: "take 4050 (current_msg s @ flush_chunk default_config s) = ''a'' @ newline # x"
    by (simp add: cand lx)
  have okr: "ok (ok_api (SendMessage (current_msg s')))"
    "result (ok_api (SendMessage (current_msg s'))) = Some (Result (Some ''logbot'') (Some 7))"
    by (simp_all add: ok_api_def)
  from rollover_split [OF t b big] obtain left where
    l1: "current_msg s @ flush_chunk default_config s = left @ current_msg s'"
    and l2: "\<forall>pre post. take 4050 (current_msg s @ flush_chunk default_config s) = pre @ newline # post \<and>
         newline \<notin> set post \<longrightarrow>
       left = (if pre = [] then take 4050 (current_msg s @ flush_chunk default_config s) else pre)"
    and l3: "posted (s\<lparr>messages := [newline]\<rparr>) s' =
      (if left \<noteq> current_msg s then [EditMessage (message_id (s\<lparr>messages := [newline]\<rparr>)) left] else []) @
      [SendMessage (current_msg s')]"
    and l4: "\<forall>r. ok (ok_api (SendMessage (current_msg s'))) \<and>
         result (ok_api (SendMessage (current_msg s'))) = Some r \<longrightarrow>
       fst (handle_logs default_config ok_api s) = None \<and> message_id s' = new_message_id r"
    unfolding s'_def by blast
  from l2 slice nx have left: "left = ''a''"
    by (metis list.distinct(1))
  from l1 have cur': "current_msg s' = newline # x @ newline # ''b''"
    by (simp add: left cand)
  from l3 have p: "posted (s\<lparr>messages := [newline]\<rparr>) s' =
      [EditMessage (Some 7) ''a'', SendMessage (newline # x @ newline # ''b'')]"
    by (simp add: left cur' f)
  from l4 okr have id': "message_id s' = Some 7" by fastforce
  \<comment> \<open>the second handler: no newline among the first 4050 characters\<close>
  define u where "u = one_line_handler"
  define u' where "u' = snd (handle_logs default_config ok_api u)"
  define c where "c = replicate 4050 (CHR ''x'')"
  have lc: "length c = 4050" and nc: "newline \<notin> set c"
    by (simp_all add: c_def newline_def)
  have g: "messages u = ''b'' @ [newline]" "current_msg u = c" "message_id u = Some 7"
    by (simp_all add: u_def one_line_handler_def c_def)
  have tu: "\<not> file_path default_config u"
    by (simp add: file_path_def g default_config_def)
  have ku: "flush_chunk default_config u = ''b''"
    using tu by (simp add: flush_chunk_def g whole_lines_def rsplit_head_def newline_def)
  have bu: "bootstrap ok_api (u\<lparr>messages := drop (length (flush_chunk default_config u)) (messages u)\<rparr>) =
      (None, u\<lparr>messages := [newline]\<rparr>)"
    by (simp add: ku g bootstrap_def no_message_id_def)
  have bigu: "length (current_msg u @ flush_chunk default_config u) > 4050"
    by (simp add: g ku lc)
  have sliceu: "take 4050 (current_msg u @ flush_chunk default_config u) = c"
    by (simp add: g ku lc)
  from rollover_split [OF tu bu bigu] obtain left' where
    m1: "current_msg u @ flush_chunk default_config u = left' @ current_msg u'"
    and m2: "newline \<notin> set (take 4050 (current_msg u @ flush_chunk default_config u)) \<longrightarrow>
       left' = take 4050 (current_msg u @ flush_chunk default_config u)"
    and m3: "posted (u\<lparr>messages := [newline]\<rparr>) u' =
      (if left' \<noteq> current_msg u then [EditMessage (message_id (u\<lparr>messages := [newline]\<rparr>)) left'] else []) @
      [SendMessage (current_msg u')]"
    unfolding u'_def by blast
  from m2 have left': "left' = c" by (simp only: sliceu nc not_False_eq_True simp_thms)
  from m1 have curu: "current_msg u' = ''b''" by (simp add: left' g ku)
  from m3 have pu: "posted (u\<lparr>messages := [newline]\<rparr>) u' = [SendMessage ''b'']"
    by (simp add: left' g curu)
  have nu: "newline \<notin> set (take 4050 (current_msg u @ flush_chunk default_config u))"
    by (simp only: sliceu nc not_False_eq_True)
  from t b big slice cur' p id' tu nu curu pu show ?thesis
    unfolding s'_def u'_def s_def u_def x_def by blast
qed

text \<open>
  C4, the claim as stated fails: with the producer of one very long line, the last
  flush composes a newline followed by 8099 characters of that line. The first 4050
  characters hold a newline, their first character, and the code does not split
  there: it cuts after 4050 characters, finds the left part equal to the committed
  text, and sends the other 4050 characters as the new message.
\<close>

theorem hard_cut_despite_newline:
  "current_msg (fst (run default_config hard_cut_prefix (init_handler, 0))) @
     flush_chunk default_config (fst (run default_config hard_cut_prefix (init_handler, 0))) =
     newline # replicate 4049 (CHR ''y'') @ replicate 4050 (CHR ''y'') \<and>
   newline \<in> set (take 4050
     (current_msg (fst (run default_config hard_cut_prefix (init_handler, 0))) @
      flush_chunk default_config (fst (run default_config hard_cut_prefix (init_handler, 0))))) \<and>
   current_msg (fst (run default_config (hard_cut_prefix @ [RunTask ok_api]) (init_handler, 0))) =
     replicate 4050 (CHR ''y'') \<and>
   posted (fst (run default_config hard_cut_prefix (init_handler, 0)))
     (fst (run default_config (hard_cut_prefix @ [RunTask ok_api]) (init_handler, 0))) =
     [SendMessage (replicate 4050 (CHR ''y''))]"
proof -
  define y where "y = replicate 9000 (CHR ''y'')"
  define cfg where "cfg = default_config"
  have ign: "\<not> ignored cfg l" for l by (simp add: ignored_def cfg_def default_config_def)
  have c: "wait_time cfg = 5" "minimum cfg = 1" "pending cfg = 200000"
    by (simp_all add: cfg_def default_config_def)
  have nn: "newline \<notin> set (replicate n (CHR ''y''))" for n
    by (simp add: newline_def)
  \<comment> \<open>the first line and its flush\<close>
  define s1 where "s1 = \<lparr> messages = [newline], current_msg = ''a'', floodwait = 0,
     message_id = Some 7, lines = 0, last_update = 10,
     http_session = [GetMe, SendInit, EditMessage (Some 7) ''a''] \<rparr>"
  have r1: "run cfg [Emit 10 10 ''a'', RunTask ok_api] (init_handler, 0) = (s1, 0)"
    by (simp only: cfg_def s1_def first_line_flushed)
  \<comment> \<open>the long line\<close>
  define s2 where "s2 = s1\<lparr>messages := messages s1 @ y @ [newline], floodwait := 0, lines := 0,
     last_update := 20\<rparr>"
  have "snd (emit cfg 20 20 y s1)"
    using c by (simp add: emit_scheduled_iff [OF ign] s1_def)
  then have e2: "step cfg (Emit 20 20 y) (s1, 0) = (s2, Suc 0)"
    unfolding s2_def using ign by (rule step_emit_scheduled [rotated])
  \<comment> \<open>its flush: the chunk is the full slice, the remainder starts with the newline\<close>
  have m2: "messages s2 = newline # replicate 9000 (CHR ''y'') @ [newline]"
    by (simp add: s2_def s1_def y_def)
  have cur2: "current_msg s2 = ''a''" and id2: "message_id s2 = Some 7"
    and h2: "http_session s2 = [GetMe, SendInit, EditMessage (Some 7) ''a'']"
    by (simp_all add: s2_def s1_def)
  have t2: "\<not> file_path cfg s2" by (simp add: file_path_def m2 c)
  have i2: "\<not> no_message_id s2" by (simp add: no_message_id_def id2)
  have "take 4050 (messages s2) = newline # replicate 4049 (CHR ''y'')"
    by (simp add: m2)
  then have k2: "flush_chunk cfg s2 = newline # replicate 4049 (CHR ''y'')"
    using t2 whole_lines_leading_newline [OF nn] by (simp add: flush_chunk_def)
  have cand2: "current_msg s2 @ flush_chunk cfg s2 = ''a'' @ newline # replicate 4049 (CHR ''y'')"
    by (simp add: cur2 k2)
  have big2: "length (current_msg s2 @ flush_chunk cfg s2) > 4050"
    by (simp add: cand2)
  have "take 4050 (current_msg s2 @ flush_chunk cfg s2) = ''a'' @ newline # replicate 4048 (CHR ''y'')"
    by (simp add: cand2)
  then have left2: "whole_lines (take 4050 (current_msg s2 @ flush_chunk cfg s2)) = current_msg s2"
    using whole_lines_split [OF nn, of "''a''" 4048] by (simp add: cur2)
  define s3 where "s3 = snd (handle_logs cfg ok_api s2)"
  have f3: "s3 = s2\<lparr>messages := replicate 4951 (CHR ''y'') @ [newline],
       http_session := http_session s2 @ [SendMessage (newline # replicate 4049 (CHR ''y''))],
       current_msg := newline # replicate 4049 (CHR ''y''),
       message_id := Some 7\<rparr>"
    unfolding s3_def flush_ok_overflow_no_edit [OF t2 i2 big2 left2]
    by (simp add: k2 m2 cur2)
  \<comment> \<open>the line \<open>b\<close>\<close>
  define s4 where "s4 = s3\<lparr>messages := messages s3 @ ''b'' @ [newline], floodwait := 0, lines := 0,
     last_update := 30\<rparr>"
  have "snd (emit cfg 30 30 ''b'' s3)"
    using c by (simp add: emit_scheduled_iff [OF ign] f3 s2_def s1_def)
  then have e4: "step cfg (Emit 30 30 ''b'') (s3, 0) = (s4, Suc 0)"
    unfolding s4_def using ign by (rule step_emit_scheduled [rotated])
  have m4: "messages s4 = replicate 4951 (CHR ''y'') @ newline # ''b'' @ [newline]"
    by (simp add: s4_def f3)
  have cur4: "current_msg s4 = newline # replicate 4049 (CHR ''y'')"
    and id4: "message_id s4 = Some 7"
    by (simp_all add: s4_def f3)
  have t4: "\<not> file_path cfg s4" by (simp add: file_path_def m4 c)
  have i4: "\<not> no_message_id s4" by (simp add: no_message_id_def id4)
  have "take 4050 (messages s4) = replicate 4050 (CHR ''y'')"
    by (simp add: m4)
  then have k4: "flush_chunk cfg s4 = replicate 4050 (CHR ''y'')"
    using t4 whole_lines_no_newline [OF nn] by (simp add: flush_chunk_def)
  have cand4: "current_msg s4 @ flush_chunk cfg s4 =
      newline # replicate 4049 (CHR ''y'') @ replicate 4050 (CHR ''y'')"
    by (simp add: cur4 k4)
  have big4: "length (current_msg s4 @ flush_chunk cfg s4) > 4050"
    by (simp add: cand4)
  have slice4: "take 4050 (current_msg s4 @ flush_chunk cfg s4) = newline # replicate 4049 (CHR ''y'')"
    by (simp add: cand4)
  then have left4: "whole_lines (take 4050 (current_msg s4 @ flush_chunk cfg s4)) = current_msg s4"
    using whole_lines_leading_newline [OF nn, of 4049] by (simp add: cur4)
  define s5 where "s5 = snd (handle_logs cfg ok_api s4)"
  have f5: "s5 = s4\<lparr>messages := drop (length (flush_chunk cfg s4)) (messages s4),
       http_session := http_session s4 @ [SendMessage (replicate 4050 (CHR ''y''))],
       current_msg := replicate 4050 (CHR ''y''),
       message_id := Some 7\<rparr>"
    unfolding s5_def flush_ok_overflow_no_edit [OF t4 i4 big4 left4]
    by (simp add: k4 cur4)
  \<comment> \<open>the runs\<close>
  have "run cfg hard_cut_prefix (init_handler, 0) =
      step cfg (Emit 30 30 ''b'') (step cfg (RunTask ok_api) (step cfg (Emit 20 20 y)
          (run cfg [Emit 10 10 ''a'', RunTask ok_api] (init_handler, 0))))"
    by (simp only: hard_cut_prefix_def run.simps y_def)
  also have "\<dots> = (s4, Suc 0)"
  proof -
    have e3: "step cfg (RunTask ok_api) (s2, Suc 0) = (s3, 0)" by (simp add: s3_def)
    show ?thesis by (simp only: r1 e2 e3 e4)
  qed
  finally have p4: "run cfg hard_cut_prefix (init_handler, 0) = (s4, Suc 0)" .
  have "run cfg (hard_cut_prefix @ [RunTask ok_api]) (init_handler, 0) =
      step cfg (RunTask ok_api) (run cfg hard_cut_prefix (init_handler, 0))"
    by (simp only: run_append run.simps)
  also have "\<dots> = (s5, 0)" by (simp add: p4 s5_def)
  finally have p5: "run cfg (hard_cut_prefix @ [RunTask ok_api]) (init_handler, 0) = (s5, 0)" .
  have a: "current_msg s4 @ flush_chunk cfg s4 =
      newline # replicate 4049 (CHR ''y'') @ replicate 4050 (CHR ''y'')"
    by (rule cand4)
  have b: "newline \<in> set (take 4050 (current_msg s4 @ flush_chunk cfg s4))"
    by (simp only: slice4) simp
  have d: "current_msg s5 = replicate 4050 (CHR ''y'')" by (simp add: f5)
  have e: "posted s4 s5 = [SendMessage (replicate 4050 (CHR ''y''))]"
    by (simp add: posted_def f5)
  have q4: "fst (run default_config hard_cut_prefix (init_handler, 0)) = s4"
    using p4 by (simp add: cfg_def)
  have q5: "fst (run default_config (hard_cut_prefix @ [RunTask ok_api]) (init_handler, 0)) = s5"
    using p5 by (simp add: cfg_def)
  from a b d e show ?thesis
    unfolding q4 q5 cfg_def by blast
qed

text \<open>
  C1 (as amended). For every sequence of calls of \<open>emit\<close> and runs of the flush task,
  from the initial handler: the spans taken off the front of the buffer, concatenated
  in order and followed by what is still in the buffer, are the accepted lines, each
  followed by a newline, in order. Every flush takes a prefix off the buffer, and that
  prefix is the span it hands on: on the file path it is the document posted; on the
  text path, when the flush raises nothing, the committed text followed by the span is
  accounted for by what the flush commits, the last text it posts, and before it a
  left part that was either committed already or posted as an edit.
\<close>

theorem no_gap_no_duplication:
  "concat (removed cfg es (init_handler, 0)) @ messages (fst (run cfg es (init_handler, 0))) =
     accepted cfg es \<and>
   messages s = removed_span s (snd (handle_logs cfg api s)) @ messages (snd (handle_logs cfg api s)) \<and>
   (file_path cfg s \<longrightarrow>
      posted s (snd (handle_logs cfg api s)) =
        [SendDocument (removed_span s (snd (handle_logs cfg api s)))]) \<and>
   (\<not> file_path cfg s \<and> fst (handle_logs cfg api s) = None \<longrightarrow>
      (\<exists>left.
         current_msg s @ removed_span s (snd (handle_logs cfg api s)) =
           left @ current_msg (snd (handle_logs cfg api s)) \<and>
         ((left = [] \<and>
           (\<exists>mid. last (http_session (snd (handle_logs cfg api s))) =
              EditMessage mid (current_msg (snd (handle_logs cfg api s))))) \<or>
          (last (http_session (snd (handle_logs cfg api s))) =
             SendMessage (current_msg (snd (handle_logs cfg api s))) \<and>
           (left = current_msg s \<or>
            (\<exists>mid. EditMessage mid left \<in> set (posted s (snd (handle_logs cfg api s)))))))))"
proof -
  have a: "concat (removed cfg es (init_handler, 0)) @
      messages (fst (run cfg es (init_handler, 0))) = accepted cfg es"
    using run_conserves [of cfg es "(init_handler, 0)"] by (simp add: init_handler_def)
  have span: "removed_span s (snd (handle_logs cfg api s)) = flush_chunk cfg s"
    by (rule handle_logs_removed_span)
  have b: "messages s = removed_span s (snd (handle_logs cfg api s)) @
      messages (snd (handle_logs cfg api s))"
    using handle_logs_splits_buffer [of s cfg api] by (simp add: span)
  have c: "file_path cfg s \<longrightarrow> posted s (snd (handle_logs cfg api s)) =
      [SendDocument (removed_span s (snd (handle_logs cfg api s)))]"
    by (simp add: span posted_def handle_logs_file_path)
  have d: "\<not> file_path cfg s \<and> fst (handle_logs cfg api s) = None \<longrightarrow>
      (\<exists>left.
         current_msg s @ removed_span s (snd (handle_logs cfg api s)) =
           left @ current_msg (snd (handle_logs cfg api s)) \<and>
         ((left = [] \<and>
           (\<exists>mid. last (http_session (snd (handle_logs cfg api s))) =
              EditMessage mid (current_msg (snd (handle_logs cfg api s))))) \<or>
          (last (http_session (snd (handle_logs cfg api s))) =
             SendMessage (current_msg (snd (handle_logs cfg api s))) \<and>
           (left = current_msg s \<or>
            (\<exists>mid. EditMessage mid left \<in> set (posted s (snd (handle_logs cfg api s))))))))"
    unfolding span using text_flush_hands_off [of cfg s api] by blast
  from a b c d show ?thesis by blast
qed

theorem no_gap_no_duplication_witness:
  "concat (removed default_config [Emit 10 10 ''a'', RunTask ok_api] (init_handler, 0)) @
     messages (fst (run default_config [Emit 10 10 ''a'', RunTask ok_api] (init_handler, 0))) =
     ''a'' @ [newline] \<and>
   file_path (default_config\<lparr>pending := 3\<rparr>) (init_handler\<lparr>messages := ''abcdef'' @ [newline]\<rparr>) \<and>
   posted (init_handler\<lparr>messages := ''abcdef'' @ [newline]\<rparr>)
     (snd (handle_logs (default_config\<lparr>pending := 3\<rparr>) ok_api
        (init_handler\<lparr>messages := ''abcdef'' @ [newline]\<rparr>))) =
     [SendDocument (removed_span (init_handler\<lparr>messages := ''abcdef'' @ [newline]\<rparr>)
        (snd (handle_logs (default_config\<lparr>pending := 3\<rparr>) ok_api
           (init_handler\<lparr>messages := ''abcdef'' @ [newline]\<rparr>))))] \<and>
   \<not> file_path default_config (init_handler\<lparr>messages := ''a'' @ [newline]\<rparr>) \<and>
   fst (handle_logs default_config ok_api (init_handler\<lparr>messages := ''a'' @ [newline]\<rparr>)) = None \<and>
   (\<exists>left.
      current_msg (init_handler\<lparr>messages := ''a'' @ [newline]\<rparr>) @
        removed_span (init_handler\<lparr>messages := ''a'' @ [newline]\<rparr>)
          (snd (handle_logs default_config ok_api (init_handler\<lparr>messages := ''a'' @ [newline]\<rparr>))) =
        left @ current_msg
          (snd (handle_logs default_config ok_api (init_handler\<lparr>messages := ''a'' @ [newline]\<rparr>))))"
proof -
  let ?es = "[Emit 10 10 ''a'', RunTask ok_api]"
  let ?cfg3 = "default_config\<lparr>pending := 3\<rparr>"
  let ?sF = "init_handler\<lparr>messages := ''abcdef'' @ [newline]\<rparr>"
  let ?sT = "init_handler\<lparr>messages := ''a'' @ [newline]\<rparr>"
  have acc: "accepted default_config ?es = ''a'' @ [newline]"
    by (simp add: ignored_def default_config_def)
  have fp: "file_path ?cfg3 ?sF"
    by (simp add: file_path_def default_config_def init_handler_def)
  have tp: "\<not> file_path default_config ?sT"
    by (simp add: file_path_def default_config_def init_handler_def)
  have nr: "fst (handle_logs default_config ok_api ?sT) = None"
    by (simp add: default_config_def init_handler_def Let_def
        handle_logs_def whole_lines_def rsplit_head_def newline_def bootstrap_def
        no_message_id_def verify_bot_def initialise_def send_request_def ok_api_def
        compose_def edit_message_def)
  from no_gap_no_duplication [of default_config ?es ?sT ok_api] acc
  have a: "concat (removed default_config ?es (init_handler, 0)) @
      messages (fst (run default_config ?es (init_handler, 0))) = ''a'' @ [newline]"
    by (simp only:)
  from no_gap_no_duplication [of ?cfg3 ?es ?sF ok_api] fp
  have b: "posted ?sF (snd (handle_logs ?cfg3 ok_api ?sF)) =
      [SendDocument (removed_span ?sF (snd (handle_logs ?cfg3 ok_api ?sF)))]"
    by blast
  from no_gap_no_duplication [of default_config ?es ?sT ok_api] tp nr
  have c: "\<exists>left.
      current_msg ?sT @ removed_span ?sT (snd (handle_logs default_config ok_api ?sT)) =
        left @ current_msg (snd (handle_logs default_config ok_api ?sT))"
    by blast
  from a fp b tp nr c show ?thesis by blast
qed

text \<open>
  C1, the claim as stated fails: after the line \<open>a\<close> was accepted and flushed, the
  spans removed so far are \<open>a\<close>, while the accepted lines with their newlines are
  \<open>a\<close> and a newline; the newline is still in the buffer.
\<close>

theorem removed_spans_lag_accepted:
  "concat (removed default_config [Emit 10 10 ''a'', RunTask ok_api] (init_handler, 0)) = ''a'' \<and>
   accepted default_config [Emit 10 10 ''a'', RunTask ok_api] = ''a'' @ [newline] \<and>
   messages (fst (run default_config [Emit 10 10 ''a'', RunTask ok_api] (init_handler, 0))) = [newline]"
  by (simp add: emit_def ignored_def default_config_def init_handler_def Let_def
      handle_logs_def whole_lines_def rsplit_head_def newline_def bootstrap_def
      no_message_id_def verify_bot_def initialise_def send_request_def ok_api_def
      compose_def edit_message_def removed_span_def)

end
